theory Spec2Isabelle
  imports Main "HOL-Library.Char_ord" "HOL-Library.List_Lexorder" "HOL-Library.Sublist"
begin

section \<open>Schema\<close>

text \<open>
  The tables of the drizzle schema, one record per row type. Every field keeps the column
  name of the schema behind a prefix for its table (\<open>s_\<close> seasons, \<open>r_\<close> rounds, \<open>gw_\<close>
  game weeks, \<open>t_\<close> teams, \<open>f_\<close> fixtures, \<open>p_\<close> picks): Isabelle record fields share one
  name space, and several tables have an \<open>id\<close> and an \<open>isActive\<close> column. An \<open>integer\<close> or
  \<open>serial\<close> column is an \<open>int\<close>, a nullable column an \<open>option\<close>, a \<open>timestamp\<close> the number of
  milliseconds of the JavaScript \<open>Date\<close>.
\<close>

type_synonym timestamp = int

record Season =
  s_id :: int
  s_name :: string
  s_startDate :: timestamp
  s_endDate :: timestamp
  s_isActive :: bool

record Round =
  r_id :: int
  r_seasonId :: int
  r_number :: int
  r_isActive :: bool

record GameWeek =
  gw_id :: int
  gw_roundId :: int
  gw_number :: int
  gw_deadline :: timestamp
  gw_isActive :: bool

record Team =
  t_id :: int
  t_name :: string
  t_short_name :: "string option"
  t_tla :: "string option"
  t_crest :: "string option"

record Fixture =
  f_id :: int
  f_external_id :: "int option"
  f_game_week_id :: "int option"
  f_home_team_id :: int
  f_away_team_id :: int
  f_home_score :: "int option"
  f_away_score :: "int option"
  f_kickoff :: timestamp
  f_status :: string
  f_selected :: bool
  f_winner :: "string option"
  f_external_season_id :: "int option"
  f_season_id :: int
  f_round_id :: "int option"

record Pick =
  p_id :: int
  p_userId :: int
  p_teamId :: int
  p_gameWeekId :: int
  p_roundId :: int
  p_seasonId :: int
  p_fixtureId :: int
  p_externalId :: "int option"
  p_isHomeTeam :: bool
  p_isCorrect :: "bool option"
  p_pickedAt :: timestamp

text \<open>
  The database: each table is the list of its rows in the order a \<open>select\<close> without
  \<open>orderBy\<close> enumerates them. \<open>picks_id_seq\<close> is the sequence behind the \<open>serial\<close> column
  \<open>picks.id\<close>: the value the next insert draws.
\<close>

record db =
  seasons :: "Season list"
  rounds :: "Round list"
  gameWeeks :: "GameWeek list"
  teams :: "Team list"
  fixtures :: "Fixture list"
  picks :: "Pick list"
  picks_id_seq :: int

text \<open>
  \<open>id serial PRIMARY KEY\<close> on seasons, rounds and game weeks: no two rows of a table share
  an id.
\<close>

definition primary_keys :: "db \<Rightarrow> bool" where
  "primary_keys st \<longleftrightarrow>
     distinct (map s_id (seasons st)) \<and>
     distinct (map r_id (rounds st)) \<and>
     distinct (map gw_id (gameWeeks st))"

text \<open>\<open>unique().on(t.userId, t.gameWeekId)\<close> on picks.\<close>

definition picks_unq :: "db \<Rightarrow> bool" where
  "picks_unq st \<longleftrightarrow> distinct (map (\<lambda>p. (p_userId p, p_gameWeekId p)) (picks st))"

section \<open>DatabaseStorage\<close>

datatype storage_error =
    SeasonNotFound
  | RoundNotFound
  | GameWeekNotFound
  | PicksUserGameWeekUnique

text \<open>\<open>rows[0]\<close>, and the destructuring \<open>const [x] = rows\<close>: \<open>undefined\<close> on no row.\<close>

definition first :: "'a list \<Rightarrow> 'a option" where
  "first rows = (case rows of [] \<Rightarrow> None | x # _ \<Rightarrow> Some x)"

text \<open>
  \<open>tx.update(table).set({ isActive: b })\<close>, with \<open>.where(cond)\<close> or, for every row, without.
\<close>

definition seasons_set_isActive :: "bool \<Rightarrow> (Season \<Rightarrow> bool) \<Rightarrow> db \<Rightarrow> db" where
  "seasons_set_isActive b cond st =
     st\<lparr>seasons := map (\<lambda>s. if cond s then s\<lparr>s_isActive := b\<rparr> else s) (seasons st)\<rparr>"

definition rounds_set_isActive :: "bool \<Rightarrow> (Round \<Rightarrow> bool) \<Rightarrow> db \<Rightarrow> db" where
  "rounds_set_isActive b cond st =
     st\<lparr>rounds := map (\<lambda>r. if cond r then r\<lparr>r_isActive := b\<rparr> else r) (rounds st)\<rparr>"

definition gameWeeks_set_isActive :: "bool \<Rightarrow> (GameWeek \<Rightarrow> bool) \<Rightarrow> db \<Rightarrow> db" where
  "gameWeeks_set_isActive b cond st =
     st\<lparr>gameWeeks := map (\<lambda>g. if cond g then g\<lparr>gw_isActive := b\<rparr> else g) (gameWeeks st)\<rparr>"

definition getActiveSeason :: "db \<Rightarrow> Season option" where
  "getActiveSeason st = first (filter s_isActive (seasons st))"

definition getActiveRound :: "int \<Rightarrow> db \<Rightarrow> Round option" where
  "getActiveRound seasonId st =
     first (filter (\<lambda>r. r_seasonId r = seasonId \<and> r_isActive r) (rounds st))"

definition getActiveGameWeek :: "int \<Rightarrow> db \<Rightarrow> GameWeek option" where
  "getActiveGameWeek roundId st =
     first (filter (\<lambda>g. gw_roundId g = roundId \<and> gw_isActive g) (gameWeeks st))"

text \<open>
  The cascade after the rounds and game weeks were switched off, shared by the source's
  \<open>setActiveSeason\<close> and \<open>setActiveRound\<close> as the same statements: the first game week of a
  round by \<open>orderBy(gameWeeks.number)\<close>, switched on when there is one.
\<close>

definition activateFirstGameWeek :: "int \<Rightarrow> db \<Rightarrow> db" where
  "activateFirstGameWeek roundId st =
     (case first (sort_key gw_number (filter (\<lambda>g. gw_roundId g = roundId) (gameWeeks st))) of
        None \<Rightarrow> st
      | Some firstGameWeek \<Rightarrow>
          gameWeeks_set_isActive True (\<lambda>g. gw_id g = gw_id firstGameWeek) st)"

definition setActiveSeason :: "int \<Rightarrow> db \<Rightarrow> storage_error + db" where
  "setActiveSeason ident st =
     (case first (filter (\<lambda>s. s_id s = ident) (seasons st)) of
        None \<Rightarrow> Inl SeasonNotFound
      | Some season \<Rightarrow>
          (let st1 = seasons_set_isActive False (\<lambda>_. True) st;
               st2 = seasons_set_isActive True (\<lambda>s. s_id s = ident) st1;
               st3 = rounds_set_isActive False (\<lambda>_. True) st2;
               st4 = gameWeeks_set_isActive False (\<lambda>_. True) st3
           in case first (sort_key r_number (filter (\<lambda>r. r_seasonId r = ident) (rounds st4))) of
                None \<Rightarrow> Inr st4
              | Some firstRound \<Rightarrow>
                  Inr (activateFirstGameWeek (r_id firstRound)
                        (rounds_set_isActive True (\<lambda>r. r_id r = r_id firstRound) st4))))"

definition setActiveRound :: "int \<Rightarrow> db \<Rightarrow> storage_error + db" where
  "setActiveRound ident st =
     (case first (filter (\<lambda>r. r_id r = ident) (rounds st)) of
        None \<Rightarrow> Inl RoundNotFound
      | Some round \<Rightarrow>
          (let st1 = rounds_set_isActive False (\<lambda>_. True) st;
               st2 = rounds_set_isActive True (\<lambda>r. r_id r = ident) st1;
               st3 = gameWeeks_set_isActive False (\<lambda>_. True) st2
           in Inr (activateFirstGameWeek ident st3)))"

definition setActiveGameWeek :: "int \<Rightarrow> db \<Rightarrow> storage_error + db" where
  "setActiveGameWeek ident st =
     (case first (filter (\<lambda>g. gw_id g = ident) (gameWeeks st)) of
        None \<Rightarrow> Inl GameWeekNotFound
      | Some gameWeek \<Rightarrow>
          (let st1 = gameWeeks_set_isActive False (\<lambda>_. True) st
           in Inr (gameWeeks_set_isActive True (\<lambda>g. gw_id g = ident) st1)))"

subsection \<open>Sequences of activation requests\<close>

text \<open>
  The three admin routes call one storage method each. A method that throws leaves the
  tables as they were (it throws before its transaction starts), and later requests run
  on the unchanged database.
\<close>

datatype activation = ActivateSeason int | ActivateRound int | ActivateGameWeek int

fun activate :: "activation \<Rightarrow> db \<Rightarrow> storage_error + db" where
  "activate (ActivateSeason i) st = setActiveSeason i st"
| "activate (ActivateRound i) st = setActiveRound i st"
| "activate (ActivateGameWeek i) st = setActiveGameWeek i st"

fun run_activations :: "activation list \<Rightarrow> db \<Rightarrow> db" where
  "run_activations [] st = st"
| "run_activations (a # as) st =
     (case activate a st of
        Inl _ \<Rightarrow> run_activations as st
      | Inr st' \<Rightarrow> run_activations as st')"

subsection \<open>Reads and the insert of a pick\<close>

definition getTeams :: "db \<Rightarrow> Team list" where
  "getTeams st = teams st"

text \<open>\<open>eq(fixtures.game_week_id, gameWeekId)\<close>: a fixture with no game week (NULL) never matches.\<close>

definition getFixturesByGameWeek :: "int \<Rightarrow> db \<Rightarrow> Fixture list" where
  "getFixturesByGameWeek gameWeekId st =
     filter (\<lambda>f. f_game_week_id f = Some gameWeekId) (fixtures st)"

definition getFixtureById :: "int \<Rightarrow> db \<Rightarrow> Fixture option" where
  "getFixtureById fixtureId st = first (filter (\<lambda>f. f_id f = fixtureId) (fixtures st))"

definition getGameWeeksByRound :: "int \<Rightarrow> db \<Rightarrow> GameWeek list" where
  "getGameWeeksByRound roundId st = filter (\<lambda>g. gw_roundId g = roundId) (gameWeeks st)"

text \<open>
  \<open>WHERE user_id = $1 AND game_week_id = ANY($2)\<close>. The query selects five columns of each
  row (id, userId, gameWeekId, teamId, isCorrect); the rows are kept whole here, and the
  caller reads \<open>teamId\<close> only.
\<close>

definition getPicksByGameWeeks :: "int \<Rightarrow> int list \<Rightarrow> db \<Rightarrow> Pick list" where
  "getPicksByGameWeeks userId gameWeekIds st =
     filter (\<lambda>p. p_userId p = userId \<and> p_gameWeekId p \<in> set gameWeekIds) (picks st)"

text \<open>
  \<open>db.insert(picks).values(pick).returning()\<close>. The argument is an \<open>Omit<Pick, "id">\<close>: its
  \<open>p_id\<close> is ignored and the sequence gives the id of the row. The insert throws when a row
  with the same user and game week exists (the \<open>unique\<close> constraint of the table); the
  sequence value drawn for the rejected row is spent, as in PostgreSQL, and the table is
  left as it was.
\<close>

definition createPick :: "Pick \<Rightarrow> db \<Rightarrow> (storage_error + Pick) \<times> db" where
  "createPick pick st =
     (if \<exists>q \<in> set (picks st). p_userId q = p_userId pick \<and> p_gameWeekId q = p_gameWeekId pick
      then (Inl PicksUserGameWeekUnique, st\<lparr>picks_id_seq := picks_id_seq st + 1\<rparr>)
      else (let row = pick\<lparr>p_id := picks_id_seq st\<rparr>
            in (Inr row, st\<lparr>picks := picks st @ [row], picks_id_seq := picks_id_seq st + 1\<rparr>)))"

section \<open>Player routes\<close>

text \<open>
  The failures of the two player routes, by the response they send:
  401 \<open>Authentication required\<close>; 400 \<open>Team ID and Fixture ID are required\<close>;
  404 \<open>No active season\<close>, \<open>No active round\<close>, \<open>No active game week\<close>, \<open>Fixture not found\<close>;
  400 \<open>Selected team is not part of the fixture\<close>; and 500 from the \<open>catch\<close> block, with the
  storage error that was thrown.
\<close>

datatype response_error =
    AuthenticationRequired
  | IdsRequired
  | NoActiveSeason
  | NoActiveRound
  | NoActiveGameWeek
  | FixtureNotFound
  | TeamNotInFixture
  | ServerError storage_error

fun status_code :: "response_error \<Rightarrow> nat" where
  "status_code AuthenticationRequired = 401"
| "status_code IdsRequired = 400"
| "status_code NoActiveSeason = 404"
| "status_code NoActiveRound = 404"
| "status_code NoActiveGameWeek = 404"
| "status_code FixtureNotFound = 404"
| "status_code TeamNotInFixture = 400"
| "status_code (ServerError _) = 500"

text \<open>An element of the response of \<open>GET /api/available-teams\<close>: \<open>{...team, isAvailable}\<close>.\<close>

record AvailableTeam = Team +
  isAvailable :: bool

text \<open>
  \<open>GET /api/available-teams\<close> (the spec's \<open>getAvailableTeams\<close>). \<open>user\<close> is the id of
  \<open>req.user\<close>, \<open>None\<close> for a request with no session. The two JavaScript \<open>Set\<close>s are read by
  \<open>has\<close> only, so each is the list it was built from, asked for membership.
\<close>

definition get_api_available_teams :: "int option \<Rightarrow> db \<Rightarrow> response_error + AvailableTeam list" where
  "get_api_available_teams user st =
     (case user of
        None \<Rightarrow> Inl AuthenticationRequired
      | Some userId \<Rightarrow>
     (case getActiveSeason st of
        None \<Rightarrow> Inl NoActiveSeason
      | Some season \<Rightarrow>
     (case getActiveRound (s_id season) st of
        None \<Rightarrow> Inl NoActiveRound
      | Some round \<Rightarrow>
     (case getActiveGameWeek (r_id round) st of
        None \<Rightarrow> Inl NoActiveGameWeek
      | Some gameWeek \<Rightarrow>
          (let fixtures = getFixturesByGameWeek (gw_id gameWeek) st;
               teamIds = map f_home_team_id fixtures @ map f_away_team_id fixtures;
               roundGameWeeks = getGameWeeksByRound (r_id round) st;
               roundGameWeekIds = map gw_id roundGameWeeks;
               previousPicks = getPicksByGameWeeks userId roundGameWeekIds st;
               previouslyPickedTeamIds = map p_teamId previousPicks;
               teams = getTeams st
           in Inr (map (\<lambda>team. Team.extend team
                          (AvailableTeam.fields (t_id team \<notin> set previouslyPickedTeamIds)))
                    (filter (\<lambda>team. t_id team \<in> set teamIds) teams)))))))"

text \<open>
  \<open>POST /api/picks\<close> (the spec's \<open>submitPick\<close>). \<open>teamId\<close> and \<open>fixtureId\<close> are the two
  fields read from the request body, \<open>None\<close> when the field is missing; \<open>!teamId\<close> holds of a
  missing field and of 0. \<open>now\<close> is the \<open>new Date()\<close> of the request. \<open>pickData\<close> has the types
  of \<open>insertPickSchema\<close>, whose \<open>safeParse\<close> therefore succeeds and returns the same fields.
\<close>

definition post_api_picks ::
  "int option \<Rightarrow> int option \<Rightarrow> int option \<Rightarrow> timestamp \<Rightarrow> db \<Rightarrow> (response_error + Pick) \<times> db" where
  "post_api_picks user body_teamId body_fixtureId now st =
     (case user of
        None \<Rightarrow> (Inl AuthenticationRequired, st)
      | Some userId \<Rightarrow>
     (case (body_teamId, body_fixtureId) of
        (Some teamId, Some fixtureId) \<Rightarrow>
          if teamId = 0 \<or> fixtureId = 0 then (Inl IdsRequired, st)
          else
     (case getActiveSeason st of
        None \<Rightarrow> (Inl NoActiveSeason, st)
      | Some season \<Rightarrow>
     (case getActiveRound (s_id season) st of
        None \<Rightarrow> (Inl NoActiveRound, st)
      | Some round \<Rightarrow>
     (case getActiveGameWeek (r_id round) st of
        None \<Rightarrow> (Inl NoActiveGameWeek, st)
      | Some gameWeek \<Rightarrow>
     (case getFixtureById fixtureId st of
        None \<Rightarrow> (Inl FixtureNotFound, st)
      | Some fixture \<Rightarrow>
          (let isHomeTeam = (f_home_team_id fixture = teamId);
               isAwayTeam = (f_away_team_id fixture = teamId)
           in if \<not> isHomeTeam \<and> \<not> isAwayTeam then (Inl TeamNotInFixture, st)
              else
                (let pickData =
                       \<lparr>p_id = 0,
                        p_userId = userId,
                        p_teamId = teamId,
                        p_gameWeekId = gw_id gameWeek,
                        p_roundId = r_id round,
                        p_seasonId = s_id season,
                        p_fixtureId = fixtureId,
                        p_externalId = f_external_id fixture,
                        p_isHomeTeam = isHomeTeam,
                        p_isCorrect = None,
                        p_pickedAt = now\<rparr>
                 in case createPick pickData st of
                      (Inl e, st') \<Rightarrow> (Inl (ServerError e), st')
                    | (Inr pick, st') \<Rightarrow> (Inr pick, st')))))))
      | _ \<Rightarrow> (Inl IdsRequired, st)))"

section \<open>Vocabulary of the properties\<close>

text \<open>The rows of each level whose \<open>isActive\<close> flag is set, and the invariant on them.\<close>

definition active_seasons :: "db \<Rightarrow> Season list" where
  "active_seasons st = filter s_isActive (seasons st)"

definition active_rounds :: "db \<Rightarrow> Round list" where
  "active_rounds st = filter r_isActive (rounds st)"

definition active_gameWeeks :: "db \<Rightarrow> GameWeek list" where
  "active_gameWeeks st = filter gw_isActive (gameWeeks st)"

definition single_active :: "db \<Rightarrow> bool" where
  "single_active st \<longleftrightarrow>
     length (active_seasons st) \<le> 1 \<and>
     length (active_rounds st) \<le> 1 \<and>
     length (active_gameWeeks st) \<le> 1"

text \<open>The rounds of a season, and a row whose number is lowest in a list of rows.\<close>

definition rounds_of :: "int \<Rightarrow> db \<Rightarrow> Round list" where
  "rounds_of seasonId st = filter (\<lambda>r. r_seasonId r = seasonId) (rounds st)"

definition lowest_numbered :: "('a \<Rightarrow> int) \<Rightarrow> 'a list \<Rightarrow> 'a \<Rightarrow> bool" where
  "lowest_numbered num xs x \<longleftrightarrow> x \<in> set xs \<and> (\<forall>y \<in> set xs. num x \<le> num y)"

text \<open>
  The database after the first four statements of the transaction of \<open>setActiveSeason\<close>,
  named for the proofs.
\<close>

definition season_switched :: "int \<Rightarrow> db \<Rightarrow> db" where
  "season_switched S st =
     gameWeeks_set_isActive False (\<lambda>_. True)
       (rounds_set_isActive False (\<lambda>_. True)
         (seasons_set_isActive True (\<lambda>s. s_id s = S)
           (seasons_set_isActive False (\<lambda>_. True) st)))"

text \<open>The resolved current context: the chain of the three lookups both player routes start with.\<close>

definition current_context :: "db \<Rightarrow> Season \<Rightarrow> Round \<Rightarrow> GameWeek \<Rightarrow> bool" where
  "current_context st season round gameWeek \<longleftrightarrow>
     getActiveSeason st = Some season \<and>
     getActiveRound (s_id season) st = Some round \<and>
     getActiveGameWeek (r_id round) st = Some gameWeek"

text \<open>A team id is the home or the away side of a fixture.\<close>

definition plays_in :: "int \<Rightarrow> Fixture \<Rightarrow> bool" where
  "plays_in teamId f \<longleftrightarrow> f_home_team_id f = teamId \<or> f_away_team_id f = teamId"

text \<open>Some fixture assigned to the game week has the team as its home or away side.\<close>

definition plays_in_gameWeek :: "db \<Rightarrow> int \<Rightarrow> int \<Rightarrow> bool" where
  "plays_in_gameWeek st gameWeekId teamId \<longleftrightarrow>
     (\<exists>f \<in> set (fixtures st). f_game_week_id f = Some gameWeekId \<and> plays_in teamId f)"

text \<open>The user has a pick of the team in some game week of the round.\<close>

definition picked_in_round :: "db \<Rightarrow> int \<Rightarrow> int \<Rightarrow> int \<Rightarrow> bool" where
  "picked_in_round st userId roundId teamId \<longleftrightarrow>
     (\<exists>p \<in> set (picks st). p_userId p = userId \<and> p_teamId p = teamId \<and>
        (\<exists>g \<in> set (gameWeeks st). gw_roundId g = roundId \<and> gw_id g = p_gameWeekId p))"

text \<open>
  The ordering the spec gives for the list of available teams: available teams before
  unavailable ones, and by name within each group (names compared as character lists).
\<close>

definition available_first_then_by_name :: "AvailableTeam list \<Rightarrow> bool" where
  "available_first_then_by_name res \<longleftrightarrow>
     sorted_wrt (\<lambda>a b. (isAvailable a \<and> \<not> isAvailable b) \<or>
                       (isAvailable a = isAvailable b \<and> t_name a \<le> t_name b)) res"

text \<open>
  Two databases that agree on their seasons, rounds, teams and picks, on the id, the round
  and the active flag of every game week, and on the game week and the two teams of every
  fixture. They may differ in everything else: the status, scores, winner and kickoff of a
  fixture, the deadline and number of a game week.
\<close>

definition same_assignments :: "db \<Rightarrow> db \<Rightarrow> bool" where
  "same_assignments st st' \<longleftrightarrow>
     seasons st' = seasons st \<and> rounds st' = rounds st \<and>
     teams st' = teams st \<and> picks st' = picks st \<and>
     map (\<lambda>g. (gw_id g, gw_roundId g, gw_isActive g)) (gameWeeks st') =
       map (\<lambda>g. (gw_id g, gw_roundId g, gw_isActive g)) (gameWeeks st) \<and>
     map (\<lambda>f. (f_game_week_id f, f_home_team_id f, f_away_team_id f)) (fixtures st') =
       map (\<lambda>f. (f_game_week_id f, f_home_team_id f, f_away_team_id f)) (fixtures st)"

section \<open>A database for the examples\<close>

text \<open>
  Two seasons. The active one, 2024/25, has round 3 (number 1, active) with game weeks 3
  (number 1) and 2 (number 2, active), and round 2 (number 2) with game week 4. Fixtures
  2 and 3 are assigned to the active game week 2, fixture 1 to the earlier game week 3 of
  the same round, and fixture 4 to game week 1 of the season before. User 1 picked team 1
  in game week 3; user 2 picked team 3 in the active game week.
\<close>

definition scenario_season :: Season where
  "scenario_season =
     \<lparr>s_id = 2, s_name = ''2024/25'', s_startDate = 3000, s_endDate = 4000, s_isActive = True\<rparr>"

definition scenario_round :: Round where
  "scenario_round = \<lparr>r_id = 3, r_seasonId = 2, r_number = 1, r_isActive = True\<rparr>"

definition scenario_gameWeek :: GameWeek where
  "scenario_gameWeek =
     \<lparr>gw_id = 2, gw_roundId = 3, gw_number = 2, gw_deadline = 3200, gw_isActive = True\<rparr>"

definition arsenal :: Team where
  "arsenal =
     \<lparr>t_id = 2, t_name = ''Arsenal'', t_short_name = None, t_tla = Some ''ARS'', t_crest = None\<rparr>"

definition fixture1 :: Fixture where
  "fixture1 =
     \<lparr>f_id = 1, f_external_id = Some 501, f_game_week_id = Some 3, f_home_team_id = 1,
      f_away_team_id = 3, f_home_score = Some 2, f_away_score = Some 0, f_kickoff = 3150,
      f_status = ''FINISHED'', f_selected = False, f_winner = Some ''HOME_TEAM'',
      f_external_season_id = None, f_season_id = 2, f_round_id = Some 3\<rparr>"

definition fixture2 :: Fixture where
  "fixture2 =
     \<lparr>f_id = 2, f_external_id = Some 502, f_game_week_id = Some 2, f_home_team_id = 2,
      f_away_team_id = 1, f_home_score = Some 1, f_away_score = Some 1, f_kickoff = 3250,
      f_status = ''FINISHED'', f_selected = False, f_winner = Some ''DRAW'',
      f_external_season_id = None, f_season_id = 2, f_round_id = Some 3\<rparr>"

definition fixture3 :: Fixture where
  "fixture3 =
     \<lparr>f_id = 3, f_external_id = Some 503, f_game_week_id = Some 2, f_home_team_id = 3,
      f_away_team_id = 4, f_home_score = None, f_away_score = None, f_kickoff = 3260,
      f_status = ''SCHEDULED'', f_selected = False, f_winner = None,
      f_external_season_id = None, f_season_id = 2, f_round_id = Some 3\<rparr>"

definition fixture4 :: Fixture where
  "fixture4 =
     \<lparr>f_id = 4, f_external_id = Some 504, f_game_week_id = Some 1, f_home_team_id = 5,
      f_away_team_id = 2, f_home_score = Some 0, f_away_score = Some 3, f_kickoff = 1150,
      f_status = ''FINISHED'', f_selected = False, f_winner = Some ''AWAY_TEAM'',
      f_external_season_id = None, f_season_id = 1, f_round_id = Some 1\<rparr>"

definition earlier_pick :: Pick where
  "earlier_pick =
     \<lparr>p_id = 1, p_userId = 1, p_teamId = 1, p_gameWeekId = 3, p_roundId = 3, p_seasonId = 2,
      p_fixtureId = 1, p_externalId = Some 501, p_isHomeTeam = True, p_isCorrect = Some True,
      p_pickedAt = 3140\<rparr>"

definition scenario_db :: db where
  "scenario_db =
     \<lparr>seasons =
        [\<lparr>s_id = 1, s_name = ''2023/24'', s_startDate = 1000, s_endDate = 2000, s_isActive = False\<rparr>,
         scenario_season],
      rounds =
        [\<lparr>r_id = 1, r_seasonId = 1, r_number = 1, r_isActive = False\<rparr>,
         \<lparr>r_id = 2, r_seasonId = 2, r_number = 2, r_isActive = False\<rparr>,
         scenario_round],
      gameWeeks =
        [\<lparr>gw_id = 1, gw_roundId = 1, gw_number = 1, gw_deadline = 1100, gw_isActive = False\<rparr>,
         scenario_gameWeek,
         \<lparr>gw_id = 3, gw_roundId = 3, gw_number = 1, gw_deadline = 3100, gw_isActive = False\<rparr>,
         \<lparr>gw_id = 4, gw_roundId = 2, gw_number = 3, gw_deadline = 3300, gw_isActive = False\<rparr>],
      teams =
        [\<lparr>t_id = 1, t_name = ''Wolves'', t_short_name = None, t_tla = Some ''WOL'', t_crest = None\<rparr>,
         arsenal,
         \<lparr>t_id = 3, t_name = ''Chelsea'', t_short_name = None, t_tla = Some ''CHE'', t_crest = None\<rparr>,
         \<lparr>t_id = 4, t_name = ''Brentford'', t_short_name = None, t_tla = Some ''BRE'', t_crest = None\<rparr>,
         \<lparr>t_id = 5, t_name = ''Everton'', t_short_name = None, t_tla = Some ''EVE'', t_crest = None\<rparr>],
      fixtures = [fixture1, fixture2, fixture3, fixture4],
      picks =
        [earlier_pick,
         \<lparr>p_id = 2, p_userId = 2, p_teamId = 3, p_gameWeekId = 2, p_roundId = 3, p_seasonId = 2,
          p_fixtureId = 3, p_externalId = Some 503, p_isHomeTeam = True, p_isCorrect = None,
          p_pickedAt = 3240\<rparr>],
      picks_id_seq = 3\<rparr>"

text \<open>What \<open>GET /api/available-teams\<close> answers user 1 on this database.\<close>

definition scenario_answer :: "AvailableTeam list" where
  "scenario_answer =
     [\<lparr>t_id = 1, t_name = ''Wolves'', t_short_name = None, t_tla = Some ''WOL'',
        t_crest = None, isAvailable = False\<rparr>,
      \<lparr>t_id = 2, t_name = ''Arsenal'', t_short_name = None, t_tla = Some ''ARS'',
        t_crest = None, isAvailable = True\<rparr>,
      \<lparr>t_id = 3, t_name = ''Chelsea'', t_short_name = None, t_tla = Some ''CHE'',
        t_crest = None, isAvailable = True\<rparr>,
      \<lparr>t_id = 4, t_name = ''Brentford'', t_short_name = None, t_tla = Some ''BRE'',
        t_crest = None, isAvailable = True\<rparr>]"

text \<open>
  The picks that \<open>POST /api/picks\<close> creates on this database at time 5000: for user 1 and
  team 1 with fixture 2, and for user 1 and team 5 with fixture 4.
\<close>

definition repick :: Pick where
  "repick =
     \<lparr>p_id = 3, p_userId = 1, p_teamId = 1, p_gameWeekId = 2, p_roundId = 3, p_seasonId = 2,
      p_fixtureId = 2, p_externalId = Some 502, p_isHomeTeam = False, p_isCorrect = None,
      p_pickedAt = 5000\<rparr>"

definition stray_pick :: Pick where
  "stray_pick =
     \<lparr>p_id = 3, p_userId = 1, p_teamId = 5, p_gameWeekId = 2, p_roundId = 3, p_seasonId = 2,
      p_fixtureId = 4, p_externalId = Some 504, p_isHomeTeam = True, p_isCorrect = None,
      p_pickedAt = 5000\<rparr>"

text \<open>
  The same database with every fixture postponed and without a result, and every
  deadline moved.
\<close>

definition scenario_postponed :: db where
  "scenario_postponed =
     scenario_db
       \<lparr>gameWeeks := map (\<lambda>g. g\<lparr>gw_deadline := 0\<rparr>) (gameWeeks scenario_db),
        fixtures := map (\<lambda>f. f\<lparr>f_status := ''POSTPONED'', f_home_score := None,
                                f_away_score := None, f_winner := None\<rparr>)
                      (fixtures scenario_db)\<rparr>"

section \<open>Properties\<close>

subsection \<open>The example database is well formed\<close>

lemmas scenario_defs =
  scenario_db_def scenario_season_def scenario_round_def scenario_gameWeek_def arsenal_def
  fixture1_def fixture2_def fixture3_def fixture4_def earlier_pick_def

lemma scenario_primary_keys: "primary_keys scenario_db"
  by (simp add: primary_keys_def scenario_defs)

lemma scenario_single_active: "single_active scenario_db"
  by (simp add: single_active_def active_seasons_def active_rounds_def active_gameWeeks_def
      scenario_defs)

subsection \<open>Lists, keys and the first row\<close>

lemma first_eq_None: "first xs = None \<longleftrightarrow> xs = []"
  by (cases xs) (simp_all add: first_def)

lemma first_eq_Some: "first xs = Some x \<longleftrightarrow> (\<exists>ys. xs = x # ys)"
  by (cases xs) (auto simp: first_def)

lemma first_mem: "first xs = Some x \<Longrightarrow> x \<in> set xs"
  by (auto simp: first_eq_Some)

lemma first_filter_Some: "first (filter P xs) = Some x \<Longrightarrow> x \<in> set xs \<and> P x"
  by (drule first_mem) simp

lemma first_filter_None: "first (filter P xs) = None \<longleftrightarrow> (\<forall>x \<in> set xs. \<not> P x)"
  by (simp add: first_eq_None filter_empty_conv)

lemma first_sort_key_least:
  assumes "first (sort_key k xs) = Some x"
  shows "x \<in> set xs \<and> (\<forall>y \<in> set xs. k x \<le> k y)"
proof -
  from assms obtain ys where eq: "sort_key k xs = x # ys"
    by (auto simp: first_eq_Some)
  have "set (sort_key k xs) = set xs" by simp
  with eq have mem: "x \<in> set xs" and sub: "set xs = insert x (set ys)" by auto
  have "sorted (map k (sort_key k xs))" by simp
  with eq have "\<forall>y \<in> set ys. k x \<le> k y" by simp
  with sub mem show ?thesis by auto
qed

lemma key_filter_le1:
  "distinct (map k xs) \<Longrightarrow> length (filter (\<lambda>x. k x = i) xs) \<le> Suc 0"
proof (induction xs)
  case Nil
  then show ?case by simp
next
  case (Cons a xs)
  show ?case
  proof (cases "k a = i")
    case True
    with Cons.prems have "\<forall>x \<in> set xs. k x \<noteq> i" by (auto simp: image_iff)
    then have "filter (\<lambda>x. k x = i) xs = []" by (simp add: filter_empty_conv)
    with True show ?thesis by simp
  next
    case False
    with Cons show ?thesis by simp
  qed
qed

lemma key_filter_single:
  "distinct (map k xs) \<Longrightarrow> x \<in> set xs \<Longrightarrow> map k (filter (\<lambda>y. k y = k x) xs) = [k x]"
proof (induction xs)
  case Nil
  then show ?case by simp
next
  case (Cons a xs)
  show ?case
  proof (cases "k a = k x")
    case True
    with Cons.prems have "\<forall>y \<in> set xs. k y \<noteq> k x" by (auto simp: image_iff)
    then have "filter (\<lambda>y. k y = k x) xs = []" by (simp add: filter_empty_conv)
    with True show ?thesis by simp
  next
    case False
    with Cons show ?thesis by auto
  qed
qed

lemma first_sort_key_map:
  assumes "first (sort_key k (filter P (map h xs))) = Some y"
    and "\<And>x. k (h x) = k x" and "\<And>x. P (h x) = P x"
  shows "\<exists>x \<in> set (filter P xs). y = h x \<and> (\<forall>x' \<in> set (filter P xs). k x \<le> k x')"
proof -
  have eq: "filter P (map h xs) = map h (filter P xs)"
    by (simp add: filter_map comp_def assms(3))
  from first_sort_key_least [OF assms(1)]
  have mem: "y \<in> set (map h (filter P xs))"
    and least: "\<forall>z \<in> set (map h (filter P xs)). k y \<le> k z"
    by (simp_all add: eq)
  from mem obtain x where x: "x \<in> set (filter P xs)" "y = h x" by auto
  have "\<forall>x' \<in> set (filter P xs). k x \<le> k x'"
  proof
    fix x' assume "x' \<in> set (filter P xs)"
    then have "h x' \<in> set (map h (filter P xs))" by simp
    with least have "k y \<le> k (h x')" by blast
    then show "k x \<le> k x'" by (simp add: x(2) assms(2))
  qed
  with x show ?thesis by blast
qed

lemma first_sort_key_map_None:
  assumes "first (sort_key k (filter P (map h xs))) = None" and "\<And>x. P (h x) = P x"
  shows "filter P xs = []"
proof -
  have eq: "filter P (map h xs) = map h (filter P xs)"
    by (simp add: filter_map comp_def assms(2))
  from assms(1) have "sort_key k (filter P (map h xs)) = []"
    by (simp add: first_eq_None)
  then have "length (filter P (map h xs)) = 0"
    by (metis length_sort list.size(3))
  then show ?thesis by (simp add: eq)
qed

subsection \<open>The update statements: effect and frame\<close>

lemma gameWeeks_on:
  "\<forall>g \<in> set xs. \<not> gw_isActive g \<Longrightarrow>
   filter gw_isActive (map (\<lambda>g. if gw_id g = j then g\<lparr>gw_isActive := True\<rparr> else g) xs)
   = map (\<lambda>g. g\<lparr>gw_isActive := True\<rparr>) (filter (\<lambda>g. gw_id g = j) xs)"
  by (induction xs) simp_all

lemma rounds_on:
  "\<forall>r \<in> set xs. \<not> r_isActive r \<Longrightarrow>
   filter r_isActive (map (\<lambda>r. if r_id r = j then r\<lparr>r_isActive := True\<rparr> else r) xs)
   = map (\<lambda>r. r\<lparr>r_isActive := True\<rparr>) (filter (\<lambda>r. r_id r = j) xs)"
  by (induction xs) simp_all

lemma seasons_on:
  "\<forall>s \<in> set xs. \<not> s_isActive s \<Longrightarrow>
   filter s_isActive (map (\<lambda>s. if s_id s = j then s\<lparr>s_isActive := True\<rparr> else s) xs)
   = map (\<lambda>s. s\<lparr>s_isActive := True\<rparr>) (filter (\<lambda>s. s_id s = j) xs)"
  by (induction xs) simp_all

lemma seasons_set_frame:
  "rounds (seasons_set_isActive b c st) = rounds st"
  "gameWeeks (seasons_set_isActive b c st) = gameWeeks st"
  "teams (seasons_set_isActive b c st) = teams st"
  "fixtures (seasons_set_isActive b c st) = fixtures st"
  "picks (seasons_set_isActive b c st) = picks st"
  "map s_id (seasons (seasons_set_isActive b c st)) = map s_id (seasons st)"
  by (simp_all add: seasons_set_isActive_def comp_def)

lemma rounds_set_frame:
  "seasons (rounds_set_isActive b c st) = seasons st"
  "gameWeeks (rounds_set_isActive b c st) = gameWeeks st"
  "teams (rounds_set_isActive b c st) = teams st"
  "fixtures (rounds_set_isActive b c st) = fixtures st"
  "picks (rounds_set_isActive b c st) = picks st"
  "map r_id (rounds (rounds_set_isActive b c st)) = map r_id (rounds st)"
  by (simp_all add: rounds_set_isActive_def comp_def)

lemma gameWeeks_set_frame:
  "seasons (gameWeeks_set_isActive b c st) = seasons st"
  "rounds (gameWeeks_set_isActive b c st) = rounds st"
  "teams (gameWeeks_set_isActive b c st) = teams st"
  "fixtures (gameWeeks_set_isActive b c st) = fixtures st"
  "picks (gameWeeks_set_isActive b c st) = picks st"
  "map gw_id (gameWeeks (gameWeeks_set_isActive b c st)) = map gw_id (gameWeeks st)"
  by (simp_all add: gameWeeks_set_isActive_def comp_def)

lemma rounds_all_off:
  "rounds (rounds_set_isActive False (\<lambda>_. True) st) = map (\<lambda>r. r\<lparr>r_isActive := False\<rparr>) (rounds st)"
  by (simp add: rounds_set_isActive_def)

lemma gameWeeks_all_off:
  "gameWeeks (gameWeeks_set_isActive False (\<lambda>_. True) st) = map (\<lambda>g. g\<lparr>gw_isActive := False\<rparr>) (gameWeeks st)"
  by (simp add: gameWeeks_set_isActive_def)

lemma active_seasons_on:
  "active_seasons st = [] \<Longrightarrow>
   active_seasons (seasons_set_isActive True (\<lambda>s. s_id s = j) st)
   = map (\<lambda>s. s\<lparr>s_isActive := True\<rparr>) (filter (\<lambda>s. s_id s = j) (seasons st))"
  by (simp add: active_seasons_def seasons_set_isActive_def filter_empty_conv seasons_on)

lemma active_rounds_on:
  "active_rounds st = [] \<Longrightarrow>
   active_rounds (rounds_set_isActive True (\<lambda>r. r_id r = j) st)
   = map (\<lambda>r. r\<lparr>r_isActive := True\<rparr>) (filter (\<lambda>r. r_id r = j) (rounds st))"
  by (simp add: active_rounds_def rounds_set_isActive_def filter_empty_conv rounds_on)

lemma active_gameWeeks_on:
  "active_gameWeeks st = [] \<Longrightarrow>
   active_gameWeeks (gameWeeks_set_isActive True (\<lambda>g. gw_id g = j) st)
   = map (\<lambda>g. g\<lparr>gw_isActive := True\<rparr>) (filter (\<lambda>g. gw_id g = j) (gameWeeks st))"
  by (simp add: active_gameWeeks_def gameWeeks_set_isActive_def filter_empty_conv gameWeeks_on)

lemma active_seasons_off: "active_seasons (seasons_set_isActive False (\<lambda>_. True) st) = []"
  by (simp add: active_seasons_def seasons_set_isActive_def filter_empty_conv)

lemma active_rounds_off: "active_rounds (rounds_set_isActive False (\<lambda>_. True) st) = []"
  by (simp add: active_rounds_def rounds_set_isActive_def filter_empty_conv)

lemma active_gameWeeks_off: "active_gameWeeks (gameWeeks_set_isActive False (\<lambda>_. True) st) = []"
  by (simp add: active_gameWeeks_def gameWeeks_set_isActive_def filter_empty_conv)

lemma active_frame:
  "active_seasons (rounds_set_isActive b c st) = active_seasons st"
  "active_seasons (gameWeeks_set_isActive b' c' st) = active_seasons st"
  "active_rounds (seasons_set_isActive b'' c'' st) = active_rounds st"
  "active_rounds (gameWeeks_set_isActive b' c' st) = active_rounds st"
  "active_gameWeeks (seasons_set_isActive b'' c'' st) = active_gameWeeks st"
  "active_gameWeeks (rounds_set_isActive b c st) = active_gameWeeks st"
  by (simp_all add: active_seasons_def active_rounds_def active_gameWeeks_def
      seasons_set_frame rounds_set_frame gameWeeks_set_frame)

lemma activateFirstGameWeek_frame:
  "seasons (activateFirstGameWeek R st) = seasons st"
  "rounds (activateFirstGameWeek R st) = rounds st"
  "teams (activateFirstGameWeek R st) = teams st"
  "fixtures (activateFirstGameWeek R st) = fixtures st"
  "picks (activateFirstGameWeek R st) = picks st"
  "map gw_id (gameWeeks (activateFirstGameWeek R st)) = map gw_id (gameWeeks st)"
  by (simp_all add: activateFirstGameWeek_def gameWeeks_set_frame split: option.split)

lemma activateFirstGameWeek_active_frame:
  "active_seasons (activateFirstGameWeek R st) = active_seasons st"
  "active_rounds (activateFirstGameWeek R st) = active_rounds st"
  by (simp_all add: active_seasons_def active_rounds_def activateFirstGameWeek_frame)

lemma activateFirstGameWeek_le1:
  assumes "active_gameWeeks st = []" and "distinct (map gw_id (gameWeeks st))"
  shows "length (active_gameWeeks (activateFirstGameWeek R st)) \<le> Suc 0"
proof (cases "first (sort_key gw_number (filter (\<lambda>g. gw_roundId g = R) (gameWeeks st)))")
  case None
  with assms(1) show ?thesis by (simp add: activateFirstGameWeek_def)
next
  case (Some fg)
  then have "active_gameWeeks (activateFirstGameWeek R st)
      = map (\<lambda>g. g\<lparr>gw_isActive := True\<rparr>) (filter (\<lambda>g. gw_id g = gw_id fg) (gameWeeks st))"
    by (simp add: activateFirstGameWeek_def active_gameWeeks_on [OF assms(1)])
  with key_filter_le1 [OF assms(2)] show ?thesis by simp
qed

subsection \<open>\<open>setActiveGameWeek\<close>\<close>

lemma setActiveGameWeek_found:
  "(\<exists>st'. setActiveGameWeek G st = Inr st') \<longleftrightarrow> (\<exists>g \<in> set (gameWeeks st). gw_id g = G)"
  by (auto simp: setActiveGameWeek_def first_filter_None split: option.splits
      dest: first_filter_Some)

lemma setActiveGameWeek_Inr:
  "setActiveGameWeek G st = Inr st' \<Longrightarrow>
   st' = gameWeeks_set_isActive True (\<lambda>g. gw_id g = G) (gameWeeks_set_isActive False (\<lambda>_. True) st)"
  by (auto simp: setActiveGameWeek_def split: option.splits)

lemma setActiveGameWeek_again:
  assumes "setActiveGameWeek G st = Inr st'"
  shows "setActiveGameWeek G st' = Inr st'"
proof -
  note st' = setActiveGameWeek_Inr [OF assms]
  from assms have "\<exists>g \<in> set (gameWeeks st). gw_id g = G"
    using setActiveGameWeek_found by blast
  then have "G \<in> set (map gw_id (gameWeeks st))" by force
  then have "G \<in> set (map gw_id (gameWeeks st'))"
    by (simp only: st' gameWeeks_set_frame)
  then have "\<exists>g \<in> set (gameWeeks st'). gw_id g = G" by force
  then obtain st'' where again: "setActiveGameWeek G st' = Inr st''"
    using setActiveGameWeek_found by blast
  have "st'' = gameWeeks_set_isActive True (\<lambda>g. gw_id g = G) (gameWeeks_set_isActive False (\<lambda>_. True) st')"
    by (rule setActiveGameWeek_Inr [OF again])
  also have "\<dots> = st'"
    by (simp add: st' gameWeeks_set_isActive_def comp_def)
  finally show ?thesis using again by simp
qed

text \<open>
  Claim C8. For every existing game week \<open>G\<close> and every database, \<open>setActiveGameWeek G\<close>
  succeeds, and running it again on the database it returns succeeds and returns that
  same database: seasons, rounds, game weeks and every other table are equal after one
  call and after two.
\<close>

theorem setActiveGameWeek_idempotent:
  assumes "\<exists>g \<in> set (gameWeeks st). gw_id g = G"
  shows "\<exists>st'. setActiveGameWeek G st = Inr st' \<and> setActiveGameWeek G st' = Inr st'"
proof -
  from assms obtain st' where "setActiveGameWeek G st = Inr st'"
    using setActiveGameWeek_found by blast
  then show ?thesis using setActiveGameWeek_again by blast
qed

theorem setActiveGameWeek_idempotent_witness:
  "(\<exists>g \<in> set (gameWeeks scenario_db). gw_id g = 4) \<and>
   (\<exists>st'. setActiveGameWeek 4 scenario_db = Inr st' \<and> setActiveGameWeek 4 st' = Inr st' \<and>
      map gw_id (active_gameWeeks st') = [4])"
proof -
  have ex: "\<exists>g \<in> set (gameWeeks scenario_db). gw_id g = 4"
    by (simp add: scenario_defs)
  from setActiveGameWeek_idempotent [OF ex]
  obtain st' where st': "setActiveGameWeek 4 scenario_db = Inr st'" "setActiveGameWeek 4 st' = Inr st'"
    by blast
  from st'(1) have "map gw_id (active_gameWeeks st') = [4]"
    by (auto simp: setActiveGameWeek_def first_def gameWeeks_set_isActive_def active_gameWeeks_def
        scenario_defs)
  with st' have "\<exists>st'. setActiveGameWeek 4 scenario_db = Inr st' \<and> setActiveGameWeek 4 st' = Inr st' \<and>
      map gw_id (active_gameWeeks st') = [4]"
    by (intro exI [of _ st']) simp
  with ex show ?thesis by (rule conjI)
qed

lemma setActiveGameWeek_inv:
  assumes "setActiveGameWeek G st = Inr st'" and "primary_keys st" and "single_active st"
  shows "primary_keys st' \<and> single_active st'"
proof -
  note st' = setActiveGameWeek_Inr [OF assms(1)]
  let ?off = "gameWeeks_set_isActive False (\<lambda>_. True) st"
  have pk: "primary_keys st'"
    using assms(2) by (simp add: primary_keys_def st' gameWeeks_set_frame)
  have "active_gameWeeks st'
      = map (\<lambda>g. g\<lparr>gw_isActive := True\<rparr>) (filter (\<lambda>g. gw_id g = G) (gameWeeks ?off))"
    unfolding st' by (rule active_gameWeeks_on) (rule active_gameWeeks_off)
  moreover have "distinct (map gw_id (gameWeeks ?off))"
    using assms(2) by (simp add: primary_keys_def gameWeeks_set_frame)
  ultimately have "length (active_gameWeeks st') \<le> Suc 0"
    using key_filter_le1 by fastforce
  with assms(3) have "single_active st'"
    by (simp add: single_active_def st' active_frame)
  with pk show ?thesis by simp
qed

subsection \<open>\<open>setActiveRound\<close>\<close>

lemma setActiveRound_found:
  "(\<exists>st'. setActiveRound R st = Inr st') \<longleftrightarrow> (\<exists>r \<in> set (rounds st). r_id r = R)"
  by (auto simp: setActiveRound_def first_filter_None Let_def split: option.splits
      dest: first_filter_Some)

lemma setActiveRound_Inr:
  "setActiveRound R st = Inr st' \<Longrightarrow>
   st' = activateFirstGameWeek R
          (gameWeeks_set_isActive False (\<lambda>_. True)
            (rounds_set_isActive True (\<lambda>r. r_id r = R)
              (rounds_set_isActive False (\<lambda>_. True) st)))"
  by (auto simp: setActiveRound_def split: option.splits)

lemma setActiveRound_inv:
  assumes "setActiveRound R st = Inr st'" and "primary_keys st" and "single_active st"
  shows "primary_keys st' \<and> single_active st'"
proof -
  note st' = setActiveRound_Inr [OF assms(1)]
  let ?s1 = "rounds_set_isActive False (\<lambda>_. True) st"
  let ?s2 = "rounds_set_isActive True (\<lambda>r. r_id r = R) ?s1"
  let ?s3 = "gameWeeks_set_isActive False (\<lambda>_. True) ?s2"
  have pk: "primary_keys st'"
    using assms(2)
    by (simp add: primary_keys_def st' activateFirstGameWeek_frame gameWeeks_set_frame rounds_set_frame)
  have "active_rounds ?s2
      = map (\<lambda>r. r\<lparr>r_isActive := True\<rparr>) (filter (\<lambda>r. r_id r = R) (rounds ?s1))"
    by (rule active_rounds_on) (rule active_rounds_off)
  moreover have "distinct (map r_id (rounds ?s1))"
    using assms(2) by (simp add: primary_keys_def rounds_set_frame)
  ultimately have "length (active_rounds ?s2) \<le> Suc 0"
    using key_filter_le1 by fastforce
  then have r: "length (active_rounds st') \<le> Suc 0"
    by (simp add: st' activateFirstGameWeek_active_frame active_frame)
  have "distinct (map gw_id (gameWeeks ?s3))"
    using assms(2) by (simp add: primary_keys_def gameWeeks_set_frame rounds_set_frame)
  then have g: "length (active_gameWeeks st') \<le> Suc 0"
    unfolding st' by (rule activateFirstGameWeek_le1 [OF active_gameWeeks_off])
  have "active_seasons st' = active_seasons st"
    by (simp add: st' activateFirstGameWeek_active_frame active_frame)
  with assms(3) r g have "single_active st'"
    by (simp add: single_active_def)
  with pk show ?thesis by simp
qed

subsection \<open>\<open>setActiveSeason\<close> and its cascade\<close>

lemma activateFirstGameWeek_cascade:
  assumes off: "gameWeeks s = map (\<lambda>g. g\<lparr>gw_isActive := False\<rparr>) gws"
    and pk: "distinct (map gw_id gws)"
  shows "(filter (\<lambda>g. gw_roundId g = R) gws = [] \<longrightarrow>
            active_gameWeeks (activateFirstGameWeek R s) = []) \<and>
         (filter (\<lambda>g. gw_roundId g = R) gws \<noteq> [] \<longrightarrow>
            (\<exists>g. lowest_numbered gw_number (filter (\<lambda>g. gw_roundId g = R) gws) g \<and>
                 map gw_id (active_gameWeeks (activateFirstGameWeek R s)) = [gw_id g]))"
proof -
  let ?offG = "\<lambda>g. g\<lparr>gw_isActive := False\<rparr>"
  let ?sel = "first (sort_key gw_number (filter (\<lambda>g. gw_roundId g = R) (map ?offG gws)))"
  have none: "active_gameWeeks s = []"
    by (simp add: active_gameWeeks_def off filter_empty_conv)
  have pk': "distinct (map gw_id (gameWeeks s))"
    using pk by (simp add: off comp_def)
  show ?thesis
  proof (cases ?sel)
    case None
    then have "filter (\<lambda>g. gw_roundId g = R) gws = []"
      by (rule first_sort_key_map_None) simp
    moreover from None have "activateFirstGameWeek R s = s"
      by (simp add: activateFirstGameWeek_def off)
    ultimately show ?thesis using none by simp
  next
    case (Some fg)
    from first_sort_key_map [OF Some]
    obtain g where g: "g \<in> set (filter (\<lambda>g. gw_roundId g = R) gws)" "fg = ?offG g"
      "\<forall>g' \<in> set (filter (\<lambda>g. gw_roundId g = R) gws). gw_number g \<le> gw_number g'"
      by auto
    then have low: "lowest_numbered gw_number (filter (\<lambda>g. gw_roundId g = R) gws) g"
      by (simp add: lowest_numbered_def)
    from g(1) have ne: "filter (\<lambda>g. gw_roundId g = R) gws \<noteq> []"
      by (metis empty_iff list.set(1))
    from g(1,2) have fg_mem: "fg \<in> set (gameWeeks s)" by (simp add: off)
    from Some have "active_gameWeeks (activateFirstGameWeek R s)
        = map (\<lambda>g. g\<lparr>gw_isActive := True\<rparr>) (filter (\<lambda>g. gw_id g = gw_id fg) (gameWeeks s))"
      by (simp add: activateFirstGameWeek_def off [symmetric] active_gameWeeks_on [OF none])
    then have "map gw_id (active_gameWeeks (activateFirstGameWeek R s))
        = map gw_id (filter (\<lambda>g. gw_id g = gw_id fg) (gameWeeks s))"
      by (simp add: comp_def)
    also have "\<dots> = [gw_id fg]"
      by (rule key_filter_single [OF pk' fg_mem])
    also have "gw_id fg = gw_id g" by (simp add: g(2))
    finally have "map gw_id (active_gameWeeks (activateFirstGameWeek R s)) = [gw_id g]" .
    with low have "\<exists>g. lowest_numbered gw_number (filter (\<lambda>g. gw_roundId g = R) gws) g \<and>
        map gw_id (active_gameWeeks (activateFirstGameWeek R s)) = [gw_id g]"
      by (intro exI [of _ g] conjI)
    with ne show ?thesis by simp
  qed
qed

lemma setActiveSeason_found:
  "(\<exists>st'. setActiveSeason S st = Inr st') \<longleftrightarrow> (\<exists>s \<in> set (seasons st). s_id s = S)"
  by (auto simp: setActiveSeason_def first_filter_None Let_def split: option.splits
      dest: first_filter_Some)

lemma setActiveSeason_Inr:
  assumes "setActiveSeason S st = Inr st'"
  shows "(first (sort_key r_number (filter (\<lambda>r. r_seasonId r = S) (rounds (season_switched S st)))) = None
            \<and> st' = season_switched S st) \<or>
         (\<exists>fr. first (sort_key r_number (filter (\<lambda>r. r_seasonId r = S) (rounds (season_switched S st)))) = Some fr
            \<and> st' = activateFirstGameWeek (r_id fr)
                     (rounds_set_isActive True (\<lambda>r. r_id r = r_id fr) (season_switched S st)))"
  using assms
  by (auto simp: setActiveSeason_def season_switched_def Let_def split: option.splits)

lemma season_switched_tables:
  "rounds (season_switched S st) = map (\<lambda>r. r\<lparr>r_isActive := False\<rparr>) (rounds st)"
  "gameWeeks (season_switched S st) = map (\<lambda>g. g\<lparr>gw_isActive := False\<rparr>) (gameWeeks st)"
  "map s_id (seasons (season_switched S st)) = map s_id (seasons st)"
  by (simp_all add: season_switched_def gameWeeks_set_frame rounds_set_frame seasons_set_frame
      rounds_all_off gameWeeks_all_off)

lemma season_switched_active:
  "active_seasons (season_switched S st)
     = map (\<lambda>s. s\<lparr>s_isActive := True\<rparr>)
         (filter (\<lambda>s. s_id s = S) (seasons (seasons_set_isActive False (\<lambda>_. True) st)))"
  "active_rounds (season_switched S st) = []"
  "active_gameWeeks (season_switched S st) = []"
  by (simp_all add: season_switched_def active_frame active_seasons_on active_seasons_off
      active_rounds_off active_gameWeeks_off)

lemma season_switched_only:
  assumes pk: "distinct (map s_id (seasons st))" and ex: "\<exists>s \<in> set (seasons st). s_id s = S"
  shows "map s_id (active_seasons (season_switched S st)) = [S]"
proof -
  let ?offs = "seasons (seasons_set_isActive False (\<lambda>_. True) st)"
  have ids: "map s_id ?offs = map s_id (seasons st)"
    by (rule seasons_set_frame)
  from ex have "S \<in> set (map s_id (seasons st))" by force
  then have "S \<in> set (map s_id ?offs)" by (simp only: ids)
  then obtain s where s: "s \<in> set ?offs" "s_id s = S" by auto
  from pk have "distinct (map s_id ?offs)" by (simp only: ids)
  from key_filter_single [OF this s(1)]
  have "map s_id (filter (\<lambda>y. s_id y = S) ?offs) = [S]" by (simp add: s(2))
  then show ?thesis by (simp add: season_switched_active comp_def)
qed

text \<open>
  Claim C2. For every existing season \<open>S\<close> (primary keys being unique),
  \<open>setActiveSeason S\<close> succeeds, and in the database it returns: \<open>S\<close> is the only active
  season; when \<open>S\<close> has no round, no round and no game week is active; when \<open>S\<close> has a round,
  a round of \<open>S\<close> whose number is lowest among the rounds of \<open>S\<close> is the only active round,
  and the only active game week is a lowest-numbered game week of that round, or there is
  no active game week when that round has none.
\<close>

theorem setActiveSeason_cascade:
  assumes pk: "primary_keys st" and ex: "\<exists>s \<in> set (seasons st). s_id s = S"
  shows "\<exists>st'. setActiveSeason S st = Inr st' \<and>
     map s_id (active_seasons st') = [S] \<and>
     (rounds_of S st = [] \<longrightarrow> active_rounds st' = [] \<and> active_gameWeeks st' = []) \<and>
     (rounds_of S st \<noteq> [] \<longrightarrow>
        (\<exists>r. lowest_numbered r_number (rounds_of S st) r \<and>
             map r_id (active_rounds st') = [r_id r] \<and>
             (getGameWeeksByRound (r_id r) st = [] \<longrightarrow> active_gameWeeks st' = []) \<and>
             (getGameWeeksByRound (r_id r) st \<noteq> [] \<longrightarrow>
                (\<exists>g. lowest_numbered gw_number (getGameWeeksByRound (r_id r) st) g \<and>
                     map gw_id (active_gameWeeks st') = [gw_id g]))))"
proof -
  let ?s4 = "season_switched S st"
  let ?offR = "\<lambda>r. r\<lparr>r_isActive := False\<rparr>"
  let ?sel = "first (sort_key r_number (filter (\<lambda>r. r_seasonId r = S) (rounds ?s4)))"
  from ex obtain st' where run: "setActiveSeason S st = Inr st'"
    using setActiveSeason_found by blast
  from pk have pks: "distinct (map s_id (seasons st))" and pkr: "distinct (map r_id (rounds st))"
    and pkg: "distinct (map gw_id (gameWeeks st))"
    by (simp_all add: primary_keys_def)
  have only: "map s_id (active_seasons ?s4) = [S]"
    by (rule season_switched_only [OF pks ex])
  from setActiveSeason_Inr [OF run] show ?thesis
  proof (elim disjE conjE exE)
    assume none: "?sel = None" and st': "st' = ?s4"
    from none have "filter (\<lambda>r. r_seasonId r = S) (rounds st) = []"
      unfolding season_switched_tables by (rule first_sort_key_map_None) simp
    then have "rounds_of S st = []" by (simp add: rounds_of_def)
    with run only show ?thesis
      by (simp add: st' season_switched_active)
  next
    fix fr :: Round
    let ?s5 = "rounds_set_isActive True (\<lambda>r. r_id r = r_id fr) ?s4"
    assume some: "?sel = Some fr" and st': "st' = activateFirstGameWeek (r_id fr) ?s5"
    from some have "first (sort_key r_number (filter (\<lambda>r. r_seasonId r = S) (map ?offR (rounds st)))) = Some fr"
      by (simp only: season_switched_tables)
    from first_sort_key_map [OF this]
    obtain r where r: "r \<in> set (filter (\<lambda>r. r_seasonId r = S) (rounds st))" "fr = ?offR r"
      "\<forall>r' \<in> set (filter (\<lambda>r. r_seasonId r = S) (rounds st)). r_number r \<le> r_number r'"
      by auto
    then have low: "lowest_numbered r_number (rounds_of S st) r"
      by (simp add: lowest_numbered_def rounds_of_def)
    from r(1) have ne: "rounds_of S st \<noteq> []"
      unfolding rounds_of_def by (metis empty_iff list.set(1))
    have id_eq: "r_id fr = r_id r" by (simp add: r(2))
    from r(1,2) have fr_mem: "fr \<in> set (rounds ?s4)"
      by (simp add: season_switched_tables)
    have pkr4: "distinct (map r_id (rounds ?s4))"
      using pkr by (simp add: season_switched_tables comp_def)
    have "active_rounds ?s5
        = map (\<lambda>r. r\<lparr>r_isActive := True\<rparr>) (filter (\<lambda>x. r_id x = r_id fr) (rounds ?s4))"
      by (rule active_rounds_on) (rule season_switched_active)
    then have "map r_id (active_rounds ?s5) = map r_id (filter (\<lambda>x. r_id x = r_id fr) (rounds ?s4))"
      by (simp add: comp_def)
    also have "\<dots> = [r_id fr]"
      by (rule key_filter_single [OF pkr4 fr_mem])
    finally have act_r: "map r_id (active_rounds st') = [r_id r]"
      by (simp add: st' activateFirstGameWeek_active_frame id_eq)
    have act_s: "map s_id (active_seasons st') = [S]"
      using only by (simp add: st' activateFirstGameWeek_active_frame active_frame)
    have gws5: "gameWeeks ?s5 = map (\<lambda>g. g\<lparr>gw_isActive := False\<rparr>) (gameWeeks st)"
      by (simp add: rounds_set_frame season_switched_tables)
    from activateFirstGameWeek_cascade [OF gws5 pkg, of "r_id fr"]
    have gw: "(getGameWeeksByRound (r_id r) st = [] \<longrightarrow> active_gameWeeks st' = []) \<and>
       (getGameWeeksByRound (r_id r) st \<noteq> [] \<longrightarrow>
          (\<exists>g. lowest_numbered gw_number (getGameWeeksByRound (r_id r) st) g \<and>
               map gw_id (active_gameWeeks st') = [gw_id g]))"
      by (simp only: st' id_eq getGameWeeksByRound_def)
    from low act_r gw
    have "\<exists>r. lowest_numbered r_number (rounds_of S st) r \<and>
             map r_id (active_rounds st') = [r_id r] \<and>
             (getGameWeeksByRound (r_id r) st = [] \<longrightarrow> active_gameWeeks st' = []) \<and>
             (getGameWeeksByRound (r_id r) st \<noteq> [] \<longrightarrow>
                (\<exists>g. lowest_numbered gw_number (getGameWeeksByRound (r_id r) st) g \<and>
                     map gw_id (active_gameWeeks st') = [gw_id g]))"
      by (intro exI [of _ r]) simp
    with run act_s ne show ?thesis by simp
  qed
qed

theorem setActiveSeason_cascade_witness:
  "primary_keys scenario_db \<and> (\<exists>s \<in> set (seasons scenario_db). s_id s = 2) \<and>
   (\<exists>st'. setActiveSeason 2 scenario_db = Inr st' \<and>
      map s_id (active_seasons st') = [2] \<and>
      map r_id (active_rounds st') = [3] \<and>
      map gw_id (active_gameWeeks st') = [3])"
proof -
  have ex: "\<exists>s \<in> set (seasons scenario_db). s_id s = 2"
    by (simp add: scenario_defs)
  have rs: "rounds_of 2 scenario_db \<noteq> []"
    by (simp add: rounds_of_def scenario_defs)
  from setActiveSeason_cascade [OF scenario_primary_keys ex]
  obtain st' where st': "setActiveSeason 2 scenario_db = Inr st'"
      "map s_id (active_seasons st') = [2]"
    and imp: "rounds_of 2 scenario_db \<noteq> [] \<longrightarrow>
        (\<exists>r. lowest_numbered r_number (rounds_of 2 scenario_db) r \<and>
             map r_id (active_rounds st') = [r_id r] \<and>
             (getGameWeeksByRound (r_id r) scenario_db = [] \<longrightarrow> active_gameWeeks st' = []) \<and>
             (getGameWeeksByRound (r_id r) scenario_db \<noteq> [] \<longrightarrow>
                (\<exists>g. lowest_numbered gw_number (getGameWeeksByRound (r_id r) scenario_db) g \<and>
                     map gw_id (active_gameWeeks st') = [gw_id g])))"
    by (elim exE conjE) (rule that)
  from imp [THEN mp, OF rs]
  obtain r where r: "lowest_numbered r_number (rounds_of 2 scenario_db) r"
      "map r_id (active_rounds st') = [r_id r]"
    and gw: "getGameWeeksByRound (r_id r) scenario_db \<noteq> [] \<longrightarrow>
        (\<exists>g. lowest_numbered gw_number (getGameWeeksByRound (r_id r) scenario_db) g \<and>
             map gw_id (active_gameWeeks st') = [gw_id g])"
    by (elim exE conjE) (rule that)
  from r(1) have rid: "r_id r = 3"
    by (auto simp: lowest_numbered_def rounds_of_def scenario_defs)
  have "getGameWeeksByRound (r_id r) scenario_db \<noteq> []"
    by (simp add: rid getGameWeeksByRound_def scenario_defs)
  from gw [THEN mp, OF this]
  obtain g where g: "lowest_numbered gw_number (getGameWeeksByRound (r_id r) scenario_db) g"
    "map gw_id (active_gameWeeks st') = [gw_id g]"
    by (elim exE conjE) (rule that)
  from g(1) have "gw_id g = 3"
    by (auto simp: rid lowest_numbered_def getGameWeeksByRound_def scenario_defs)
  with st' r(2) rid g(2)
  have "\<exists>st'. setActiveSeason 2 scenario_db = Inr st' \<and>
      map s_id (active_seasons st') = [2] \<and>
      map r_id (active_rounds st') = [3] \<and>
      map gw_id (active_gameWeeks st') = [3]"
    by (intro exI [of _ st']) simp
  with scenario_primary_keys ex show ?thesis by (intro conjI)
qed

lemma setActiveSeason_inv:
  assumes run: "setActiveSeason S st = Inr st'" and pk: "primary_keys st"
  shows "primary_keys st' \<and> single_active st'"
proof -
  let ?s4 = "season_switched S st"
  from pk have pks: "distinct (map s_id (seasons st))" and pkr: "distinct (map r_id (rounds st))"
    and pkg: "distinct (map gw_id (gameWeeks st))"
    by (simp_all add: primary_keys_def)
  have pk4: "primary_keys ?s4"
    using pk by (simp add: primary_keys_def season_switched_tables comp_def)
  have "distinct (map s_id (seasons (seasons_set_isActive False (\<lambda>_. True) st)))"
    using pks by (simp add: seasons_set_frame)
  from key_filter_le1 [OF this, of S]
  have s4: "length (active_seasons ?s4) \<le> Suc 0"
    by (simp add: season_switched_active)
  from setActiveSeason_Inr [OF run] show ?thesis
  proof (elim disjE conjE exE)
    assume "st' = ?s4"
    with pk4 s4 show ?thesis
      by (simp add: single_active_def season_switched_active)
  next
    fix fr :: Round
    let ?s5 = "rounds_set_isActive True (\<lambda>r. r_id r = r_id fr) ?s4"
    assume st': "st' = activateFirstGameWeek (r_id fr) ?s5"
    have pk': "primary_keys st'"
      using pk4 by (simp add: primary_keys_def st' activateFirstGameWeek_frame rounds_set_frame)
    have "active_rounds ?s5
        = map (\<lambda>r. r\<lparr>r_isActive := True\<rparr>) (filter (\<lambda>x. r_id x = r_id fr) (rounds ?s4))"
      by (rule active_rounds_on) (rule season_switched_active)
    moreover have "distinct (map r_id (rounds ?s4))"
      using pk4 by (simp add: primary_keys_def)
    ultimately have "length (active_rounds ?s5) \<le> Suc 0"
      using key_filter_le1 by fastforce
    then have r: "length (active_rounds st') \<le> Suc 0"
      by (simp add: st' activateFirstGameWeek_active_frame)
    have "active_gameWeeks ?s5 = []"
      by (simp add: active_frame season_switched_active)
    moreover have "distinct (map gw_id (gameWeeks ?s5))"
      using pk4 by (simp add: primary_keys_def rounds_set_frame)
    ultimately have g: "length (active_gameWeeks st') \<le> Suc 0"
      unfolding st' by (rule activateFirstGameWeek_le1)
    have "active_seasons st' = active_seasons ?s4"
      by (simp add: st' activateFirstGameWeek_active_frame active_frame)
    with s4 r g pk' show ?thesis by (simp add: single_active_def)
  qed
qed

subsection \<open>Sequences of activation requests keep the invariant\<close>

lemma activate_inv:
  assumes "activate a st = Inr st'" and "primary_keys st" and "single_active st"
  shows "primary_keys st' \<and> single_active st'"
  using assms
  by (cases a) (auto dest: setActiveSeason_inv setActiveRound_inv setActiveGameWeek_inv)

text \<open>
  Claim C1. From a database with at most one active season, at most one active round and
  at most one active game week (and unique primary keys), every sequence of
  \<open>setActiveSeason\<close>, \<open>setActiveRound\<close> and \<open>setActiveGameWeek\<close> requests, failing ones
  included, ends in a database with at most one active season, at most one active round
  over all seasons and at most one active game week over all rounds.
\<close>

theorem run_activations_single_active:
  assumes "primary_keys st" and "single_active st"
  shows "single_active (run_activations ops st)"
  using assms
proof (induction ops arbitrary: st)
  case Nil
  then show ?case by simp
next
  case (Cons a ops)
  show ?case
  proof (cases "activate a st")
    case (Inl e)
    with Cons show ?thesis by simp
  next
    case (Inr st')
    from activate_inv [OF Inr Cons.prems]
    have "primary_keys st'" and "single_active st'" by simp_all
    then have "single_active (run_activations ops st')" by (rule Cons.IH)
    with Inr show ?thesis by simp
  qed
qed

theorem run_activations_single_active_witness:
  "primary_keys scenario_db \<and> single_active scenario_db \<and>
   single_active (run_activations
     [ActivateSeason 1, ActivateGameWeek 9, ActivateRound 2, ActivateGameWeek 3] scenario_db)"
  by (intro conjI scenario_primary_keys scenario_single_active
      run_activations_single_active)

subsection \<open>The answer of \<open>GET /api/available-teams\<close>\<close>

lemma available_teams_unfold:
  assumes "current_context st season round gameWeek"
  shows "get_api_available_teams (Some U) st =
     Inr (map (\<lambda>team. Team.extend team (AvailableTeam.fields
            (t_id team \<notin> set (map p_teamId
               (getPicksByGameWeeks U (map gw_id (getGameWeeksByRound (r_id round) st)) st)))))
          (filter (\<lambda>team. t_id team \<in> set
              (map f_home_team_id (getFixturesByGameWeek (gw_id gameWeek) st) @
               map f_away_team_id (getFixturesByGameWeek (gw_id gameWeek) st)))
            (teams st)))"
  using assms
  by (simp add: get_api_available_teams_def current_context_def getTeams_def Let_def)

lemma pool_iff:
  "t \<in> set (map f_home_team_id (getFixturesByGameWeek G st) @
            map f_away_team_id (getFixturesByGameWeek G st))
   \<longleftrightarrow> plays_in_gameWeek st G t"
  by (auto simp: getFixturesByGameWeek_def plays_in_gameWeek_def plays_in_def)

lemma round_gameWeek_ids_iff:
  "i \<in> set (map gw_id (getGameWeeksByRound R st))
   \<longleftrightarrow> (\<exists>g \<in> set (gameWeeks st). gw_roundId g = R \<and> gw_id g = i)"
  by (auto simp: getGameWeeksByRound_def image_iff)

lemma history_iff:
  "t \<in> set (map p_teamId (getPicksByGameWeeks U (map gw_id (getGameWeeksByRound R st)) st))
   \<longleftrightarrow> picked_in_round st U R t"
proof -
  have "t \<in> set (map p_teamId (getPicksByGameWeeks U (map gw_id (getGameWeeksByRound R st)) st))
      \<longleftrightarrow> (\<exists>p \<in> set (picks st). p_userId p = U \<and> p_teamId p = t \<and>
            p_gameWeekId p \<in> set (map gw_id (getGameWeeksByRound R st)))"
    by (auto simp: getPicksByGameWeeks_def image_iff)
  then show ?thesis
    by (simp only: round_gameWeek_ids_iff picked_in_round_def)
qed

lemma truncate_extend: "Team.truncate (Team.extend t (AvailableTeam.fields b)) = t"
  by (simp add: Team.defs AvailableTeam.defs)

lemma extend_sel:
  "t_id (Team.extend t (AvailableTeam.fields b)) = t_id t"
  "isAvailable (Team.extend t (AvailableTeam.fields b)) = b"
  by (simp_all add: Team.defs AvailableTeam.defs)

lemma available_teams_answer:
  assumes "current_context st season round gameWeek"
  shows "get_api_available_teams (Some U) st =
     Inr (map (\<lambda>team. Team.extend team
                (AvailableTeam.fields (\<not> picked_in_round st U (r_id round) (t_id team))))
           (filter (\<lambda>t. plays_in_gameWeek st (gw_id gameWeek) (t_id t)) (teams st)))"
  by (simp only: available_teams_unfold [OF assms] pool_iff history_iff)

lemma scenario_context:
  "current_context scenario_db scenario_season scenario_round scenario_gameWeek"
  by (simp add: current_context_def getActiveSeason_def getActiveRound_def getActiveGameWeek_def
      first_def scenario_defs)

lemma scenario_available_teams:
  "get_api_available_teams (Some 1) scenario_db = Inr scenario_answer"
  by (subst available_teams_unfold [OF scenario_context])
    (simp add: getFixturesByGameWeek_def getGameWeeksByRound_def getPicksByGameWeeks_def
      Team.defs AvailableTeam.defs scenario_answer_def scenario_defs)

text \<open>
  Claim C3. When the three lookups of the current context succeed, the route answers, for
  every user \<open>U\<close>, with exactly the rows of the teams table whose id is the home or away
  team of some fixture assigned to the active game week (each such row once, every other
  team omitted), and an entry is marked available iff \<open>U\<close> has no pick of that team in a
  game week of the active round.
\<close>

theorem available_teams_exact:
  assumes "current_context st season round gameWeek"
  shows "\<exists>res. get_api_available_teams (Some U) st = Inr res \<and>
     map Team.truncate res =
       filter (\<lambda>t. plays_in_gameWeek st (gw_id gameWeek) (t_id t)) (teams st) \<and>
     (\<forall>a \<in> set res. isAvailable a \<longleftrightarrow> \<not> picked_in_round st U (r_id round) (t_id a))"
proof -
  let ?mark = "\<lambda>team. Team.extend team (AvailableTeam.fields
      (\<not> picked_in_round st U (r_id round) (t_id team)))"
  let ?res = "map ?mark (filter (\<lambda>t. plays_in_gameWeek st (gw_id gameWeek) (t_id t)) (teams st))"
  have run: "get_api_available_teams (Some U) st = Inr ?res"
    by (rule available_teams_answer [OF assms])
  have "map Team.truncate ?res =
      filter (\<lambda>t. plays_in_gameWeek st (gw_id gameWeek) (t_id t)) (teams st)"
    by (simp add: comp_def truncate_extend)
  moreover have "\<forall>a \<in> set ?res. isAvailable a \<longleftrightarrow> \<not> picked_in_round st U (r_id round) (t_id a)"
    by (auto simp: extend_sel)
  ultimately show ?thesis using run by blast
qed

theorem available_teams_exact_witness:
  "current_context scenario_db scenario_season scenario_round scenario_gameWeek \<and>
   (\<exists>res. get_api_available_teams (Some 1) scenario_db = Inr res \<and>
      map Team.truncate res =
        filter (\<lambda>t. plays_in_gameWeek scenario_db (gw_id scenario_gameWeek) (t_id t))
          (teams scenario_db) \<and>
      map t_id res = [1, 2, 3, 4] \<and>
      map isAvailable res = [False, True, True, True] \<and>
      map (\<lambda>a. picked_in_round scenario_db 1 (r_id scenario_round) (t_id a)) res
        = [True, False, False, False])"
proof -
  from available_teams_exact [OF scenario_context, of 1]
  obtain res where res: "get_api_available_teams (Some 1) scenario_db = Inr res"
    "map Team.truncate res =
       filter (\<lambda>t. plays_in_gameWeek scenario_db (gw_id scenario_gameWeek) (t_id t))
         (teams scenario_db)"
    "\<forall>a \<in> set res. isAvailable a \<longleftrightarrow>
       \<not> picked_in_round scenario_db 1 (r_id scenario_round) (t_id a)"
    by (elim exE conjE) (rule that)
  from res(1) have eq: "res = scenario_answer"
    by (simp add: scenario_available_teams)
  have ids: "map t_id res = [1, 2, 3, 4]"
    and av: "map isAvailable res = [False, True, True, True]"
    by (simp_all add: eq scenario_answer_def)
  from res(3) av
  have "map (\<lambda>a. picked_in_round scenario_db 1 (r_id scenario_round) (t_id a)) res
      = [True, False, False, False]"
    by (simp add: eq scenario_answer_def)
  with res(1,2) ids av
  have "\<exists>res. get_api_available_teams (Some 1) scenario_db = Inr res \<and>
      map Team.truncate res =
        filter (\<lambda>t. plays_in_gameWeek scenario_db (gw_id scenario_gameWeek) (t_id t))
          (teams scenario_db) \<and>
      map t_id res = [1, 2, 3, 4] \<and>
      map isAvailable res = [False, True, True, True] \<and>
      map (\<lambda>a. picked_in_round scenario_db 1 (r_id scenario_round) (t_id a)) res
        = [True, False, False, False]"
    by (intro exI [of _ res] conjI)
  with scenario_context show ?thesis by (rule conjI)
qed

lemma available_teams_cases:
  assumes "get_api_available_teams user st = Inr res"
  shows "\<exists>U season round gameWeek. user = Some U \<and> current_context st season round gameWeek"
  using assms
  by (auto simp: get_api_available_teams_def current_context_def split: option.splits)

text \<open>
  Claim C6, as the spec states it, fails: the route sorts nothing. On the example database
  the answer to user 1 starts with the unavailable Wolves, before three available teams,
  and lists Chelsea before Brentford.
\<close>

theorem available_teams_unsorted_counterexample:
  "get_api_available_teams (Some 1) scenario_db = Inr scenario_answer \<and>
   map t_name scenario_answer = [''Wolves'', ''Arsenal'', ''Chelsea'', ''Brentford''] \<and>
   map isAvailable scenario_answer = [False, True, True, True] \<and>
   \<not> available_first_then_by_name scenario_answer"
  by (simp add: scenario_available_teams scenario_answer_def available_first_then_by_name_def)

text \<open>
  Claim C6, amended. Whenever the route answers, the teams of its answer stand in the order
  of the teams table: the answer, stripped of the \<open>isAvailable\<close> marks, is a subsequence
  of the table as the store enumerates it.
\<close>

theorem available_teams_in_table_order:
  assumes "get_api_available_teams user st = Inr res"
  shows "subseq (map Team.truncate res) (teams st)"
proof -
  from available_teams_cases [OF assms]
  obtain U season round gameWeek where u: "user = Some U"
    and ctx: "current_context st season round gameWeek" by blast
  from assms have "map Team.truncate res =
      filter (\<lambda>t. plays_in_gameWeek st (gw_id gameWeek) (t_id t)) (teams st)"
    unfolding u available_teams_answer [OF ctx]
    by (auto simp: comp_def truncate_extend)
  then show ?thesis by simp
qed

theorem available_teams_in_table_order_witness:
  "get_api_available_teams (Some 1) scenario_db = Inr scenario_answer \<and>
   subseq (map Team.truncate scenario_answer) (teams scenario_db) \<and>
   map t_name (teams scenario_db) = [''Wolves'', ''Arsenal'', ''Chelsea'', ''Brentford'', ''Everton''] \<and>
   map t_name scenario_answer = [''Wolves'', ''Arsenal'', ''Chelsea'', ''Brentford'']"
proof -
  have "map t_name (teams scenario_db) = [''Wolves'', ''Arsenal'', ''Chelsea'', ''Brentford'', ''Everton'']"
    by (simp add: scenario_defs)
  moreover have "map t_name scenario_answer = [''Wolves'', ''Arsenal'', ''Chelsea'', ''Brentford'']"
    by (simp add: scenario_answer_def)
  ultimately show ?thesis
    using scenario_available_teams available_teams_in_table_order [OF scenario_available_teams]
    by (intro conjI)
qed

subsection \<open>Independence of match data and deadlines\<close>

lemma map_filter_proj:
  assumes "\<And>x. P x = P' (p x)"
  shows "map p (filter P xs) = filter P' (map p xs)"
  by (induction xs) (simp_all add: assms)

lemma first_map: "map_option f (first xs) = first (map f xs)"
  by (cases xs) (simp_all add: first_def)

lemma first_filter_proj:
  assumes "map p xs' = map p xs" and "\<And>x. P x = P' (p x)"
  shows "map_option p (first (filter P xs')) = map_option p (first (filter P xs))"
  by (simp add: first_map map_filter_proj [where P' = P', OF assms(2)] assms(1))

lemma bex_proj:
  assumes "map p xs' = map p xs" and "\<And>x. P x = P' (p x)"
  shows "(\<exists>x \<in> set xs'. P x) \<longleftrightarrow> (\<exists>x \<in> set xs. P x)"
proof -
  have "(\<exists>x \<in> set ys. P x) \<longleftrightarrow> (\<exists>y \<in> set (map p ys). P' y)" for ys
    by (simp add: assms(2))
  then show ?thesis by (simp only: assms(1))
qed

lemma same_plays_in_gameWeek:
  assumes "same_assignments st st'"
  shows "plays_in_gameWeek st' G t = plays_in_gameWeek st G t"
  unfolding plays_in_gameWeek_def
proof (rule bex_proj)
  from assms
  show "map (\<lambda>f. (f_game_week_id f, f_home_team_id f, f_away_team_id f)) (fixtures st') =
      map (\<lambda>f. (f_game_week_id f, f_home_team_id f, f_away_team_id f)) (fixtures st)"
    by (simp add: same_assignments_def)
  show "(f_game_week_id x = Some G \<and> plays_in t x)
      = (\<lambda>(g, h, a). g = Some G \<and> (h = t \<or> a = t))
          (f_game_week_id x, f_home_team_id x, f_away_team_id x)" for x
    by (simp add: plays_in_def)
qed

lemma same_picked_in_round:
  assumes "same_assignments st st'"
  shows "picked_in_round st' U R t = picked_in_round st U R t"
proof -
  have "(\<exists>g \<in> set (gameWeeks st'). gw_roundId g = R \<and> gw_id g = i)
      \<longleftrightarrow> (\<exists>g \<in> set (gameWeeks st). gw_roundId g = R \<and> gw_id g = i)" for i
  proof (rule bex_proj)
    from assms
    show "map (\<lambda>g. (gw_id g, gw_roundId g, gw_isActive g)) (gameWeeks st') =
        map (\<lambda>g. (gw_id g, gw_roundId g, gw_isActive g)) (gameWeeks st)"
      by (simp add: same_assignments_def)
    show "(gw_roundId x = R \<and> gw_id x = i)
        = (\<lambda>(j, r, a). r = R \<and> j = i) (gw_id x, gw_roundId x, gw_isActive x)" for x
      by simp
  qed
  moreover from assms have "picks st' = picks st"
    by (simp add: same_assignments_def)
  ultimately show ?thesis by (simp add: picked_in_round_def)
qed

lemma same_active_gameWeek:
  assumes "same_assignments st st'"
  shows "map_option gw_id (getActiveGameWeek R st') = map_option gw_id (getActiveGameWeek R st)"
proof -
  let ?p = "\<lambda>g. (gw_id g, gw_roundId g, gw_isActive g)"
  from assms have eq: "map ?p (gameWeeks st') = map ?p (gameWeeks st)"
    by (simp add: same_assignments_def)
  have "map_option ?p (getActiveGameWeek R st') = map_option ?p (getActiveGameWeek R st)"
    unfolding getActiveGameWeek_def
    by (rule first_filter_proj [OF eq, where P' = "\<lambda>(j, r, a). r = R \<and> a"]) simp
  then have "map_option fst (map_option ?p (getActiveGameWeek R st'))
      = map_option fst (map_option ?p (getActiveGameWeek R st))"
    by (simp only:)
  then show ?thesis by (simp add: option.map_comp comp_def)
qed

lemma available_teams_alt:
  "get_api_available_teams user st =
     (case user of
        None \<Rightarrow> Inl AuthenticationRequired
      | Some U \<Rightarrow>
     (case getActiveSeason st of
        None \<Rightarrow> Inl NoActiveSeason
      | Some season \<Rightarrow>
     (case getActiveRound (s_id season) st of
        None \<Rightarrow> Inl NoActiveRound
      | Some round \<Rightarrow>
     (case map_option gw_id (getActiveGameWeek (r_id round) st) of
        None \<Rightarrow> Inl NoActiveGameWeek
      | Some G \<Rightarrow>
          Inr (map (\<lambda>team. Team.extend team
                      (AvailableTeam.fields (\<not> picked_in_round st U (r_id round) (t_id team))))
                (filter (\<lambda>t. plays_in_gameWeek st G (t_id t)) (teams st)))))))"
proof (cases "\<exists>U season round gameWeek. user = Some U \<and> current_context st season round gameWeek")
  case True
  then obtain U season round gameWeek where u: "user = Some U"
    and ctx: "current_context st season round gameWeek" by blast
  from ctx show ?thesis
    unfolding u
    by (simp only: available_teams_unfold [OF ctx] pool_iff history_iff)
      (simp add: current_context_def)
next
  case False
  then show ?thesis
    by (auto simp: get_api_available_teams_def current_context_def split: option.splits)
qed

lemma same_available_teams:
  assumes "same_assignments st st'"
  shows "get_api_available_teams user st' = get_api_available_teams user st"
proof -
  from assms have "seasons st' = seasons st" "rounds st' = rounds st" "teams st' = teams st"
    by (simp_all add: same_assignments_def)
  then have "getActiveSeason st' = getActiveSeason st"
    and "getActiveRound S st' = getActiveRound S st" for S
    by (simp_all add: getActiveSeason_def getActiveRound_def)
  then show ?thesis
    by (simp add: available_teams_alt same_active_gameWeek [OF assms]
        same_plays_in_gameWeek [OF assms] same_picked_in_round [OF assms] \<open>teams st' = teams st\<close>
        cong: option.case_cong)
qed

text \<open>
  Claim C10. Let the current context resolve, and let a team of the teams table be the home
  or away side of a fixture assigned to the active game week, whatever the status, scores
  and kickoff of that fixture. Then the route answers, the team is in the answer, marked
  available iff the user has no pick of it in a game week of the active round; and the
  answer is the same on every database with the same assignments (\<open>same_assignments\<close>),
  whatever the status, scores, winner and kickoff of its fixtures and the deadlines of its
  game weeks.
\<close>

theorem available_teams_ignore_status:
  assumes ctx: "current_context st season round gameWeek"
    and t: "t \<in> set (teams st)"
    and f: "f \<in> set (fixtures st)" "f_game_week_id f = Some (gw_id gameWeek)" "plays_in (t_id t) f"
    and same: "same_assignments st st'"
  shows "\<exists>res. get_api_available_teams (Some U) st = Inr res \<and>
     Team.extend t (AvailableTeam.fields (\<not> picked_in_round st U (r_id round) (t_id t))) \<in> set res \<and>
     get_api_available_teams (Some U) st' = Inr res"
proof -
  from f have pool: "plays_in_gameWeek st (gw_id gameWeek) (t_id t)"
    by (auto simp: plays_in_gameWeek_def)
  let ?res = "map (\<lambda>team. Team.extend team
        (AvailableTeam.fields (\<not> picked_in_round st U (r_id round) (t_id team))))
      (filter (\<lambda>t. plays_in_gameWeek st (gw_id gameWeek) (t_id t)) (teams st))"
  have run: "get_api_available_teams (Some U) st = Inr ?res"
    by (rule available_teams_answer [OF ctx])
  from t pool
  have "Team.extend t (AvailableTeam.fields (\<not> picked_in_round st U (r_id round) (t_id t))) \<in> set ?res"
    by auto
  moreover have "get_api_available_teams (Some U) st' = Inr ?res"
    by (simp only: same_available_teams [OF same] run)
  ultimately show ?thesis using run by blast
qed

lemma scenario_same_assignments: "same_assignments scenario_db scenario_postponed"
  by (simp add: same_assignments_def scenario_postponed_def scenario_defs)

theorem available_teams_ignore_status_witness:
  "map f_id (getFixturesByGameWeek 2 scenario_db) = [2, 3] \<and>
   map f_status (getFixturesByGameWeek 2 scenario_db) = [''FINISHED'', ''SCHEDULED''] \<and>
   map f_status (getFixturesByGameWeek 2 scenario_postponed) = [''POSTPONED'', ''POSTPONED''] \<and>
   same_assignments scenario_db scenario_postponed \<and>
   (\<exists>res. get_api_available_teams (Some 1) scenario_db = Inr res \<and>
      Team.extend arsenal (AvailableTeam.fields True) \<in> set res \<and>
      get_api_available_teams (Some 1) scenario_postponed = Inr res)"
proof -
  have t: "arsenal \<in> set (teams scenario_db)" by (simp add: scenario_defs)
  have f: "fixture2 \<in> set (fixtures scenario_db)" by (simp add: scenario_defs)
  have g: "f_game_week_id fixture2 = Some (gw_id scenario_gameWeek)"
    by (simp add: scenario_defs)
  have p: "plays_in (t_id arsenal) fixture2" by (simp add: plays_in_def scenario_defs)
  have free: "\<not> picked_in_round scenario_db 1 (r_id scenario_round) (t_id arsenal)"
    by (simp add: picked_in_round_def scenario_defs)
  from available_teams_ignore_status [OF scenario_context t f g p scenario_same_assignments, of 1]
  obtain res where res: "get_api_available_teams (Some 1) scenario_db = Inr res"
    "Team.extend arsenal (AvailableTeam.fields
        (\<not> picked_in_round scenario_db 1 (r_id scenario_round) (t_id arsenal))) \<in> set res"
    "get_api_available_teams (Some 1) scenario_postponed = Inr res"
    by (elim exE conjE) (rule that)
  from res(2) free
  have "Team.extend arsenal (AvailableTeam.fields True) \<in> set res"
    by simp
  with res(1,3)
  have "\<exists>res. get_api_available_teams (Some 1) scenario_db = Inr res \<and>
      Team.extend arsenal (AvailableTeam.fields True) \<in> set res \<and>
      get_api_available_teams (Some 1) scenario_postponed = Inr res"
    by (intro exI [of _ res] conjI)
  moreover have "map f_id (getFixturesByGameWeek 2 scenario_db) = [2, 3]"
    and "map f_status (getFixturesByGameWeek 2 scenario_db) = [''FINISHED'', ''SCHEDULED'']"
    by (simp_all add: getFixturesByGameWeek_def scenario_defs)
  moreover have "map f_status (getFixturesByGameWeek 2 scenario_postponed)
      = [''POSTPONED'', ''POSTPONED'']"
    by (simp add: getFixturesByGameWeek_def scenario_postponed_def scenario_defs)
  ultimately show ?thesis using scenario_same_assignments by (intro conjI)
qed

subsection \<open>\<open>POST /api/picks\<close>\<close>

lemma createPick_cases:
  "createPick pick st =
     (if \<exists>q \<in> set (picks st). p_userId q = p_userId pick \<and> p_gameWeekId q = p_gameWeekId pick
      then (Inl PicksUserGameWeekUnique, st\<lparr>picks_id_seq := picks_id_seq st + 1\<rparr>)
      else (Inr (pick\<lparr>p_id := picks_id_seq st\<rparr>),
            st\<lparr>picks := picks st @ [pick\<lparr>p_id := picks_id_seq st\<rparr>],
               picks_id_seq := picks_id_seq st + 1\<rparr>))"
  by (simp add: createPick_def Let_def)

lemma post_unfold:
  assumes "current_context st season round gameWeek" and "T \<noteq> 0" and "F \<noteq> 0"
    and "getFixtureById F st = Some fixture"
  shows "post_api_picks (Some U) (Some T) (Some F) now st =
     (if \<not> plays_in T fixture then (Inl TeamNotInFixture, st)
      else if \<exists>q \<in> set (picks st). p_userId q = U \<and> p_gameWeekId q = gw_id gameWeek
      then (Inl (ServerError PicksUserGameWeekUnique), st\<lparr>picks_id_seq := picks_id_seq st + 1\<rparr>)
      else (let pick = \<lparr>p_id = picks_id_seq st, p_userId = U, p_teamId = T,
                        p_gameWeekId = gw_id gameWeek, p_roundId = r_id round,
                        p_seasonId = s_id season, p_fixtureId = F,
                        p_externalId = f_external_id fixture,
                        p_isHomeTeam = (f_home_team_id fixture = T),
                        p_isCorrect = None, p_pickedAt = now\<rparr>
            in (Inr pick, st\<lparr>picks := picks st @ [pick], picks_id_seq := picks_id_seq st + 1\<rparr>)))"
  using assms
  by (auto simp: post_api_picks_def current_context_def plays_in_def createPick_cases Let_def)

lemma post_early:
  assumes "\<not> (\<exists>U T F season round gameWeek fixture.
      user = Some U \<and> body_teamId = Some T \<and> body_fixtureId = Some F \<and> T \<noteq> 0 \<and> F \<noteq> 0 \<and>
      current_context st season round gameWeek \<and> getFixtureById F st = Some fixture)"
  shows "\<exists>e. post_api_picks user body_teamId body_fixtureId now st = (Inl e, st)"
  using assms
  by (auto simp: post_api_picks_def current_context_def split: option.splits)

lemma scenario_fixture2: "getFixtureById 2 scenario_db = Some fixture2"
  by (simp add: getFixtureById_def first_def scenario_defs)

lemma scenario_fixture3: "getFixtureById 3 scenario_db = Some fixture3"
  by (simp add: getFixtureById_def first_def scenario_defs)

lemma scenario_fixture4: "getFixtureById 4 scenario_db = Some fixture4"
  by (simp add: getFixtureById_def first_def scenario_defs)

lemma scenario_stray_pick:
  "fst (post_api_picks (Some 1) (Some 5) (Some 4) 5000 scenario_db) = Inr stray_pick"
  by (subst post_unfold [OF scenario_context _ _ scenario_fixture4])
    (simp_all add: plays_in_def Let_def stray_pick_def scenario_defs)

lemma scenario_repick:
  "post_api_picks (Some 1) (Some 1) (Some 2) 5000 scenario_db =
     (Inr repick, scenario_db\<lparr>picks := picks scenario_db @ [repick], picks_id_seq := 4\<rparr>)"
  by (subst post_unfold [OF scenario_context _ _ scenario_fixture2])
    (simp_all add: plays_in_def Let_def repick_def scenario_defs)

text \<open>
  Claim C4, as the spec states it, fails: the three ids of the pick are not read from the
  fixture. On the example database user 1 submits team 5 with fixture 4, whose stored
  assignment is game week 1, round 1, season 1; the pick is created with game week 2,
  round 3 and season 2, the current context.
\<close>

theorem pick_ids_not_from_fixture_counterexample:
  "getFixtureById 4 scenario_db = Some fixture4 \<and>
   fst (post_api_picks (Some 1) (Some 5) (Some 4) 5000 scenario_db) = Inr stray_pick \<and>
   p_fixtureId stray_pick = f_id fixture4 \<and> plays_in (p_teamId stray_pick) fixture4 \<and>
   f_game_week_id fixture4 = Some 1 \<and> p_gameWeekId stray_pick = 2 \<and>
   f_round_id fixture4 = Some 1 \<and> p_roundId stray_pick = 3 \<and>
   f_season_id fixture4 = 1 \<and> p_seasonId stray_pick = 2"
  by (simp add: scenario_fixture4 scenario_stray_pick)
    (simp add: plays_in_def stray_pick_def fixture4_def)

text \<open>
  Claim C4, amended. Every pick that the route creates carries the ids of the resolved
  current context: of the active game week, of the active round and of the active season;
  its \<open>pickedAt\<close> is the time of the request and its \<open>isCorrect\<close> is null.
\<close>

theorem pick_ids_from_current_context:
  assumes run: "post_api_picks user body_teamId body_fixtureId now st = (Inr pick, st')"
  shows "\<exists>season round gameWeek. current_context st season round gameWeek \<and>
     p_gameWeekId pick = gw_id gameWeek \<and> p_roundId pick = r_id round \<and>
     p_seasonId pick = s_id season \<and> p_pickedAt pick = now \<and> p_isCorrect pick = None"
proof -
  have "\<exists>U T F season round gameWeek fixture.
      user = Some U \<and> body_teamId = Some T \<and> body_fixtureId = Some F \<and> T \<noteq> 0 \<and> F \<noteq> 0 \<and>
      current_context st season round gameWeek \<and> getFixtureById F st = Some fixture"
  proof (rule ccontr)
    assume "\<not> ?thesis"
    from post_early [OF this, of now] run show False by auto
  qed
  then obtain U T F season round gameWeek fixture
    where req: "user = Some U" "body_teamId = Some T" "body_fixtureId = Some F"
      and ok: "T \<noteq> 0" "F \<noteq> 0"
      and ctx: "current_context st season round gameWeek"
      and fx: "getFixtureById F st = Some fixture"
    by blast
  from run have "p_gameWeekId pick = gw_id gameWeek \<and> p_roundId pick = r_id round \<and>
     p_seasonId pick = s_id season \<and> p_pickedAt pick = now \<and> p_isCorrect pick = None"
    unfolding req post_unfold [OF ctx ok fx]
    by (auto simp: Let_def split: if_splits)
  with ctx show ?thesis by blast
qed

theorem pick_ids_from_current_context_witness:
  "fst (post_api_picks (Some 1) (Some 5) (Some 4) 5000 scenario_db) = Inr stray_pick \<and>
   (\<exists>season round gameWeek. current_context scenario_db season round gameWeek \<and>
      gw_id gameWeek = 2 \<and> r_id round = 3 \<and> s_id season = 2 \<and>
      p_gameWeekId stray_pick = gw_id gameWeek \<and> p_roundId stray_pick = r_id round \<and>
      p_seasonId stray_pick = s_id season) \<and>
   p_pickedAt stray_pick = 5000 \<and> p_isCorrect stray_pick = None"
proof -
  obtain st' where run:
    "post_api_picks (Some 1) (Some 5) (Some 4) 5000 scenario_db = (Inr stray_pick, st')"
    using scenario_stray_pick by (metis prod.collapse)
  from pick_ids_from_current_context [OF run]
  obtain season round gameWeek where ctx: "current_context scenario_db season round gameWeek"
    and ids: "p_gameWeekId stray_pick = gw_id gameWeek" "p_roundId stray_pick = r_id round"
      "p_seasonId stray_pick = s_id season"
    and rest: "p_pickedAt stray_pick = 5000" "p_isCorrect stray_pick = None"
    by (elim exE conjE) (rule that)
  from ids have "gw_id gameWeek = 2" "r_id round = 3" "s_id season = 2"
    by (simp_all add: stray_pick_def)
  with ctx ids
  have "\<exists>season round gameWeek. current_context scenario_db season round gameWeek \<and>
      gw_id gameWeek = 2 \<and> r_id round = 3 \<and> s_id season = 2 \<and>
      p_gameWeekId stray_pick = gw_id gameWeek \<and> p_roundId stray_pick = r_id round \<and>
      p_seasonId stray_pick = s_id season"
    by (intro exI [of _ season] exI [of _ round] exI [of _ gameWeek] conjI)
  with scenario_stray_pick rest show ?thesis by (intro conjI)
qed

text \<open>
  Claim C5, as the spec states it, fails in both directions: the route never looks for a
  fixture in the active game week. On the example database no fixture of the active game
  week 2 has team 5, and the request of user 1 for team 5 with fixture 4 (a fixture of
  game week 1) creates a pick; team 4 plays in fixture 3 of the active game week, and the
  request for team 4 with fixture 2 is rejected as not part of the fixture.
\<close>

theorem pick_outside_active_gameWeek_counterexample:
  "getActiveGameWeek 3 scenario_db = Some scenario_gameWeek \<and> gw_id scenario_gameWeek = 2 \<and>
   \<not> plays_in_gameWeek scenario_db 2 5 \<and>
   fst (post_api_picks (Some 1) (Some 5) (Some 4) 5000 scenario_db) = Inr stray_pick \<and>
   plays_in_gameWeek scenario_db 2 4 \<and>
   fst (post_api_picks (Some 1) (Some 4) (Some 2) 5000 scenario_db) = Inl TeamNotInFixture"
proof -
  have "getActiveGameWeek 3 scenario_db = Some scenario_gameWeek"
    and "gw_id scenario_gameWeek = 2"
    by (simp_all add: getActiveGameWeek_def first_def scenario_defs)
  moreover have "\<not> plays_in_gameWeek scenario_db 2 5"
    by (simp add: plays_in_gameWeek_def plays_in_def scenario_defs)
  moreover have "plays_in_gameWeek scenario_db 2 4"
    by (simp add: plays_in_gameWeek_def plays_in_def scenario_defs)
  moreover have "fst (post_api_picks (Some 1) (Some 4) (Some 2) 5000 scenario_db)
      = Inl TeamNotInFixture"
    by (subst post_unfold [OF scenario_context _ _ scenario_fixture2])
      (simp_all add: plays_in_def scenario_defs)
  ultimately show ?thesis using scenario_stray_pick by (intro conjI)
qed

text \<open>
  Claim C5, amended. With a resolved current context, a request whose two ids are not zero
  and whose \<open>fixtureId\<close> is the id of a stored fixture, of whatever game week, is rejected
  with \<open>Selected team is not part of the fixture\<close> iff the team is neither the home nor the
  away team of that fixture. A pick the request creates references that fixture and that
  team, with \<open>isHomeTeam\<close> true iff the team is the fixture's home team; and the request
  does create a pick when the team plays in the fixture and the user has no pick in the
  active game week.
\<close>

theorem pick_checks_submitted_fixture:
  assumes ctx: "current_context st season round gameWeek" and ok: "T \<noteq> 0" "F \<noteq> 0"
    and fx: "getFixtureById F st = Some fixture"
  shows "(fst (post_api_picks (Some U) (Some T) (Some F) now st) = Inl TeamNotInFixture
            \<longleftrightarrow> \<not> plays_in T fixture) \<and>
         (\<forall>pick. fst (post_api_picks (Some U) (Some T) (Some F) now st) = Inr pick \<longrightarrow>
            p_fixtureId pick = F \<and> p_teamId pick = T \<and>
            (p_isHomeTeam pick \<longleftrightarrow> f_home_team_id fixture = T)) \<and>
         (plays_in T fixture \<and>
            \<not> (\<exists>q \<in> set (picks st). p_userId q = U \<and> p_gameWeekId q = gw_id gameWeek) \<longrightarrow>
            (\<exists>pick. fst (post_api_picks (Some U) (Some T) (Some F) now st) = Inr pick))"
  unfolding post_unfold [OF ctx ok fx]
  by (auto simp: Let_def)

theorem pick_checks_submitted_fixture_witness:
  "current_context scenario_db scenario_season scenario_round scenario_gameWeek \<and>
   getFixtureById 2 scenario_db = Some fixture2 \<and>
   \<not> plays_in 4 fixture2 \<and>
   fst (post_api_picks (Some 1) (Some 4) (Some 2) 5000 scenario_db) = Inl TeamNotInFixture \<and>
   plays_in 1 fixture2 \<and>
   (\<exists>pick. fst (post_api_picks (Some 1) (Some 1) (Some 2) 5000 scenario_db) = Inr pick \<and>
      p_fixtureId pick = 2 \<and> p_teamId pick = 1 \<and> \<not> p_isHomeTeam pick)"
proof -
  note a = pick_checks_submitted_fixture [OF scenario_context _ _ scenario_fixture2,
      of 4 1 5000, simplified]
  note b = pick_checks_submitted_fixture [OF scenario_context _ _ scenario_fixture2,
      of 1 1 5000, simplified]
  have no4: "\<not> plays_in 4 fixture2" and yes1: "plays_in 1 fixture2"
    and away: "f_home_team_id fixture2 \<noteq> 1"
    by (simp_all add: plays_in_def fixture2_def)
  have free: "\<not> (\<exists>q \<in> set (picks scenario_db). p_userId q = 1 \<and> p_gameWeekId q = gw_id scenario_gameWeek)"
    by (simp add: scenario_defs)
  from a no4
  have first: "fst (post_api_picks (Some 1) (Some 4) (Some 2) 5000 scenario_db) = Inl TeamNotInFixture"
    by simp
  from b yes1 free
  obtain pick where "fst (post_api_picks (Some 1) (Some 1) (Some 2) 5000 scenario_db) = Inr pick"
    by auto
  with b away
  have "\<exists>pick. fst (post_api_picks (Some 1) (Some 1) (Some 2) 5000 scenario_db) = Inr pick \<and>
      p_fixtureId pick = 2 \<and> p_teamId pick = 1 \<and> \<not> p_isHomeTeam pick"
    by auto
  with scenario_context scenario_fixture2 no4 first yes1 show ?thesis by (intro conjI)
qed

lemma post_picks_cases:
  "picks (snd (post_api_picks user body_teamId body_fixtureId now st)) = picks st \<or>
   (\<exists>pick. picks (snd (post_api_picks user body_teamId body_fixtureId now st)) = picks st @ [pick] \<and>
      \<not> (\<exists>q \<in> set (picks st). p_userId q = p_userId pick \<and> p_gameWeekId q = p_gameWeekId pick))"
proof (cases "\<exists>U T F season round gameWeek fixture.
      user = Some U \<and> body_teamId = Some T \<and> body_fixtureId = Some F \<and> T \<noteq> 0 \<and> F \<noteq> 0 \<and>
      current_context st season round gameWeek \<and> getFixtureById F st = Some fixture")
  case False
  from post_early [OF this, of now] show ?thesis by auto
next
  case True
  then obtain U T F season round gameWeek fixture
    where req: "user = Some U" "body_teamId = Some T" "body_fixtureId = Some F"
      and ok: "T \<noteq> 0" "F \<noteq> 0"
      and ctx: "current_context st season round gameWeek"
      and fx: "getFixtureById F st = Some fixture"
    by blast
  show ?thesis
    unfolding req post_unfold [OF ctx ok fx]
    by (simp add: Let_def)
qed

lemma picks_unq_snoc:
  assumes "picks_unq st" and "picks st' = picks st @ [pick]"
    and "\<not> (\<exists>q \<in> set (picks st). p_userId q = p_userId pick \<and> p_gameWeekId q = p_gameWeekId pick)"
  shows "picks_unq st'"
  using assms by (auto simp: picks_unq_def)

lemma post_picks_unq:
  assumes "picks_unq st"
  shows "picks_unq (snd (post_api_picks user body_teamId body_fixtureId now st))"
proof -
  let ?st' = "snd (post_api_picks user body_teamId body_fixtureId now st)"
  from post_picks_cases [of user body_teamId body_fixtureId now st] show ?thesis
  proof (elim disjE exE conjE)
    assume "picks ?st' = picks st"
    with assms show ?thesis by (simp add: picks_unq_def)
  next
    fix pick
    assume "picks ?st' = picks st @ [pick]"
      and "\<not> (\<exists>q \<in> set (picks st). p_userId q = p_userId pick \<and> p_gameWeekId q = p_gameWeekId pick)"
    with assms show ?thesis by (rule picks_unq_snoc)
  qed
qed

text \<open>
  Claim C7. The route keeps the uniqueness of (user, game week) among the picks, whatever
  the request. And a request of user \<open>U\<close> that passes every check of the route, in a
  database where \<open>U\<close> already has a pick in the active game week, fails with the unique
  violation of the insert (the 500 response of the \<open>catch\<close> block), and the picks table is
  as it was: the first pick is unchanged and no second one exists.
\<close>

theorem second_pick_rejected:
  assumes unq: "picks_unq st"
  shows "picks_unq (snd (post_api_picks user body_teamId body_fixtureId now st)) \<and>
     (user = Some U \<and> body_teamId = Some T \<and> body_fixtureId = Some F \<and> T \<noteq> 0 \<and> F \<noteq> 0 \<and>
      current_context st season round gameWeek \<and> getFixtureById F st = Some fixture \<and>
      plays_in T fixture \<and>
      (\<exists>q \<in> set (picks st). p_userId q = U \<and> p_gameWeekId q = gw_id gameWeek) \<longrightarrow>
        fst (post_api_picks user body_teamId body_fixtureId now st)
          = Inl (ServerError PicksUserGameWeekUnique) \<and>
        picks (snd (post_api_picks user body_teamId body_fixtureId now st)) = picks st)"
proof (rule conjI [OF post_picks_unq [OF unq] impI])
  assume a: "user = Some U \<and> body_teamId = Some T \<and> body_fixtureId = Some F \<and> T \<noteq> 0 \<and> F \<noteq> 0 \<and>
      current_context st season round gameWeek \<and> getFixtureById F st = Some fixture \<and>
      plays_in T fixture \<and>
      (\<exists>q \<in> set (picks st). p_userId q = U \<and> p_gameWeekId q = gw_id gameWeek)"
  then have req: "user = Some U" "body_teamId = Some T" "body_fixtureId = Some F"
    and ok: "T \<noteq> 0" "F \<noteq> 0"
    and ctx: "current_context st season round gameWeek"
    and fx: "getFixtureById F st = Some fixture"
    and rest: "plays_in T fixture"
      "\<exists>q \<in> set (picks st). p_userId q = U \<and> p_gameWeekId q = gw_id gameWeek"
    by simp_all
  from rest
  show "fst (post_api_picks user body_teamId body_fixtureId now st)
          = Inl (ServerError PicksUserGameWeekUnique) \<and>
        picks (snd (post_api_picks user body_teamId body_fixtureId now st)) = picks st"
    unfolding req post_unfold [OF ctx ok fx] by simp
qed

lemma scenario_picks_unq: "picks_unq scenario_db"
  by (simp add: picks_unq_def scenario_defs)

theorem second_pick_rejected_witness:
  "picks_unq scenario_db \<and>
   current_context scenario_db scenario_season scenario_round scenario_gameWeek \<and>
   getFixtureById 3 scenario_db = Some fixture3 \<and> plays_in 4 fixture3 \<and>
   (\<exists>q \<in> set (picks scenario_db). p_userId q = 2 \<and> p_gameWeekId q = gw_id scenario_gameWeek) \<and>
   fst (post_api_picks (Some 2) (Some 4) (Some 3) 5000 scenario_db)
     = Inl (ServerError PicksUserGameWeekUnique) \<and>
   picks (snd (post_api_picks (Some 2) (Some 4) (Some 3) 5000 scenario_db)) = picks scenario_db \<and>
   picks_unq (snd (post_api_picks (Some 2) (Some 4) (Some 3) 5000 scenario_db))"
proof -
  have dup: "\<exists>q \<in> set (picks scenario_db). p_userId q = 2 \<and> p_gameWeekId q = gw_id scenario_gameWeek"
    by (simp add: scenario_defs)
  have plays: "plays_in 4 fixture3"
    by (simp add: plays_in_def fixture3_def)
  note inst = second_pick_rejected [OF scenario_picks_unq,
      of "Some 2" "Some 4" "Some 3" 5000 2 4 3 scenario_season scenario_round scenario_gameWeek
         fixture3]
  from inst scenario_context scenario_fixture3 plays dup
  have "fst (post_api_picks (Some 2) (Some 4) (Some 3) 5000 scenario_db)
     = Inl (ServerError PicksUserGameWeekUnique) \<and>
   picks (snd (post_api_picks (Some 2) (Some 4) (Some 3) 5000 scenario_db)) = picks scenario_db \<and>
   picks_unq (snd (post_api_picks (Some 2) (Some 4) (Some 3) 5000 scenario_db))"
    by simp
  with scenario_picks_unq scenario_context scenario_fixture3 plays dup
  show ?thesis by (intro conjI) simp_all
qed

text \<open>
  Claim C9. There is a database, with a resolved current context, in which a user already
  has a pick of a team in an earlier game week of the active round and the team plays in a
  fixture of the active game week, and where the user's request for that team and fixture
  succeeds: the route appends a second pick of the same user and team, in the same round.
\<close>

theorem repick_in_round_accepted:
  "\<exists>st U T F now season round gameWeek earlier pick st'.
     current_context st season round gameWeek \<and>
     earlier \<in> set (picks st) \<and> p_userId earlier = U \<and> p_teamId earlier = T \<and>
     (\<exists>g \<in> set (getGameWeeksByRound (r_id round) st).
        gw_id g = p_gameWeekId earlier \<and> gw_number g < gw_number gameWeek) \<and>
     (\<exists>f \<in> set (getFixturesByGameWeek (gw_id gameWeek) st). f_id f = F \<and> plays_in T f) \<and>
     post_api_picks (Some U) (Some T) (Some F) now st = (Inr pick, st') \<and>
     picks st' = picks st @ [pick] \<and>
     p_userId pick = U \<and> p_teamId pick = T \<and>
     p_roundId pick = r_id round \<and> p_roundId earlier = r_id round"
proof -
  let ?st' = "scenario_db\<lparr>picks := picks scenario_db @ [repick], picks_id_seq := 4\<rparr>"
  have 1: "earlier_pick \<in> set (picks scenario_db)"
    by (simp add: scenario_defs)
  have 2: "\<exists>g \<in> set (getGameWeeksByRound (r_id scenario_round) scenario_db).
      gw_id g = p_gameWeekId earlier_pick \<and> gw_number g < gw_number scenario_gameWeek"
    by (simp add: getGameWeeksByRound_def scenario_defs)
  have 3: "\<exists>f \<in> set (getFixturesByGameWeek (gw_id scenario_gameWeek) scenario_db).
      f_id f = 2 \<and> plays_in 1 f"
    by (simp add: getFixturesByGameWeek_def plays_in_def scenario_defs)
  have 4: "picks ?st' = picks scenario_db @ [repick]"
    by simp
  have 5: "p_userId earlier_pick = 1" "p_teamId earlier_pick = 1"
    "p_userId repick = 1" "p_teamId repick = 1"
    "p_roundId repick = r_id scenario_round" "p_roundId earlier_pick = r_id scenario_round"
    by (simp_all add: repick_def scenario_defs)
  from scenario_context 1 5(1,2) 2 3 scenario_repick 4 5(3-6)
  show ?thesis
    by (intro exI [of _ scenario_db] exI [of _ 1] exI [of _ 2] exI [of _ 5000]
        exI [of _ scenario_season] exI [of _ scenario_round] exI [of _ scenario_gameWeek]
        exI [of _ earlier_pick] exI [of _ repick] exI [of _ ?st'] conjI)
qed

end
